theory Spec2Isabelle
  imports Complex_Main
begin

section \<open>WebTimelapse: the capture scheduler and the frame assembly of main.py\<close>

text \<open>
  The program drives three things it does not own: a browser (Selenium), the file system
  and the ffmpeg process. The model keeps them in one record, \<open>world\<close>, threaded through
  every function of main.py; a Python exception is the \<open>Inl\<close> result of a step.

  What the model fixes about the outside:
  \<^item> a call to the browser, to \<open>os.makedirs\<close>, \<open>os.rename\<close> or \<open>subprocess.run\<close> takes the
    time its reply says and fails, with an \<open>Exception\<close>, when its reply says so; the
    replies are arbitrary;
  \<^item> Ctrl-C (KeyboardInterrupt) arrives during a call, \<open>time.sleep\<close> included, and at most
    once;
  \<^item> \<open>time.sleep(d)\<close> lasts \<open>d\<close> seconds exactly, \<open>print\<close> and \<open>datetime.now()\<close> take no
    time and do not fail; seconds are exact rationals where Python has floats;
  \<^item> a file is its path, as \<open>os.path.join\<close> builds it, and its modification time;
    renaming onto a path that is there replaces the file (POSIX); ffmpeg writes its output
    file exactly when it exits with status 0;
  \<^item> the height the page reports is an integer, the window size is what the program last
    set.
\<close>

subsection \<open>Python formatting and path helpers\<close>

definition digit_char :: "nat \<Rightarrow> char" where
  "digit_char d =
     (if d = 0 then CHR ''0'' else if d = 1 then CHR ''1'' else if d = 2 then CHR ''2''
      else if d = 3 then CHR ''3'' else if d = 4 then CHR ''4'' else if d = 5 then CHR ''5''
      else if d = 6 then CHR ''6'' else if d = 7 then CHR ''7'' else if d = 8 then CHR ''8''
      else CHR ''9'')"

text \<open>\<open>str(n)\<close> of a non-negative Python int: its decimal digits.\<close>

fun str_nat :: "nat \<Rightarrow> string" where
  "str_nat n = (if n < 10 then [digit_char n] else str_nat (n div 10) @ [digit_char (n mod 10)])"

declare str_nat.simps [simp del]

definition str_int :: "int \<Rightarrow> string" where
  "str_int i = (if i < 0 then CHR ''-'' # str_nat (nat (- i)) else str_nat (nat i))"

text \<open>The format \<open>{i:06d}\<close> of a non-negative int: zero-padded on the left to six places.\<close>

definition fmt_06d :: "nat \<Rightarrow> string" where
  "fmt_06d i = replicate (6 - length (str_nat i)) (CHR ''0'') @ str_nat i"

definition str_bool :: "bool \<Rightarrow> string" where
  "str_bool b = (if b then ''True'' else ''False'')"

text \<open>\<open>os.path.join(a, b)\<close> of posixpath.\<close>

definition path_join :: "string \<Rightarrow> string \<Rightarrow> string" where
  "path_join a b =
     (if b \<noteq> [] \<and> hd b = CHR ''/'' then b
      else if a = [] \<or> last a = CHR ''/'' then a @ b
      else a @ ''/'' @ b)"

text \<open>
  \<open>round(x)\<close> of Python 3: to the nearest integer, a tie to the even one. The quotient
  \<open>duration / interval\<close> is a float in the source; the model takes it exact.
\<close>

definition py_round :: "rat \<Rightarrow> int" where
  "py_round x =
     (let f = \<lfloor>x\<rfloor>; d = x - of_int f in
      if d < 1 / 2 then f
      else if 1 / 2 < d then f + 1
      else if even f then f else f + 1)"

subsection \<open>The world outside the program\<close>

datatype exn = Exception string | KeyboardInterrupt | SystemExit int

text \<open>The two scripts the program injects: \<open>window.scrollTo(0, 0);\<close> and the height query.\<close>

datatype script = ScrollToTop | PageHeight

text \<open>One event per call that leaves the process, with the arguments the program passed.\<close>

datatype event =
    Makedirs string
  | Chrome int int
  | SetPageLoadTimeout int
  | Get string
  | ExecuteScript script
  | GetWindowSize
  | SetWindowSize int int
  | SaveScreenshot string
  | Quit
  | Sleep rat
  | Rename string string
  | Run "string list"

text \<open>
  What the outside answers to one call to the browser, the file system or ffmpeg: how long
  it takes, the error it raises if it fails, and what it returns (a number for the height
  query and for the exit status of ffmpeg, the text ffmpeg wrote to stderr).
\<close>

record reply =
  took :: rat
  fault :: "string option"
  retval :: int
  stderr_text :: string

record world =
  clock :: rat
  strftime :: "rat \<Rightarrow> string"
  str_timedelta :: "rat \<Rightarrow> string"
  str_float :: "rat \<Rightarrow> string"
  replies :: "reply list"
  interrupt_in :: "nat option"
  calls :: "event list"
  stdout :: "string list"
  files :: "(string \<times> rat) list"
  window :: "int \<times> int"
  ffmpeg_path :: "string option"

text \<open>
  \<^item> \<open>clock\<close>: the wall clock \<open>datetime.now()\<close> reads, in seconds; \<open>strftime\<close> renders
    it as \<open>%Y%m%d-%H%M%S\<close>, \<open>str_timedelta\<close> renders a difference of two readings as
    \<open>str(total).split('.')[0]\<close> does, \<open>str_float\<close> renders a float: library functions
    taken as parameters;
  \<^item> \<open>replies\<close>: the answers to the coming calls, one per call, in order; a call made when
    none is left succeeds at once;
  \<^item> \<open>interrupt_in\<close>: \<open>Some k\<close> when the operator's Ctrl-C arrives during the call after
    the next \<open>k\<close> calls, where it raises KeyboardInterrupt;
  \<^item> \<open>calls\<close>: the calls made so far; \<open>stdout\<close>: the text of each \<open>print\<close> so far;
  \<^item> \<open>files\<close>: the files by path, each with its modification time, in the order the
    directory enumerates them;
  \<^item> \<open>window\<close>: the browser's window size; \<open>ffmpeg_path\<close>: what
    \<open>shutil.which("ffmpeg")\<close> returns.
\<close>

datatype driver = Driver

type_synonym 'a io = "world \<Rightarrow> world \<times> (exn + 'a)"

definition ret :: "'a \<Rightarrow> 'a io" where
  "ret x w = (w, Inr x)"

definition raise :: "exn \<Rightarrow> 'a io" where
  "raise e w = (w, Inl e)"

definition bind :: "'a io \<Rightarrow> ('a \<Rightarrow> 'b io) \<Rightarrow> 'b io" where
  "bind m f w = (case m w of (w1, Inl e) \<Rightarrow> (w1, Inl e) | (w1, Inr x) \<Rightarrow> f x w1)"

definition seq :: "'a io \<Rightarrow> 'b io \<Rightarrow> 'b io" where
  "seq m n = bind m (\<lambda>_. n)"

definition modify :: "(world \<Rightarrow> world) \<Rightarrow> unit io" where
  "modify f w = (f w, Inr ())"

definition py_print :: "string \<Rightarrow> unit io" where
  "py_print s = modify (\<lambda>w. w\<lparr>stdout := stdout w @ [s]\<rparr>)"

text \<open>\<open>try: body except Exception as e: handler(e)\<close>: KeyboardInterrupt and SystemExit pass.\<close>

definition except_Exception :: "'a io \<Rightarrow> (string \<Rightarrow> 'a io) \<Rightarrow> 'a io" where
  "except_Exception body handler w =
     (case body w of
        (w1, Inl (Exception e)) \<Rightarrow> handler e w1
      | (w1, r) \<Rightarrow> (w1, r))"

text \<open>A bare \<open>try: body except: pass\<close>: every exception is swallowed.\<close>

definition except_pass :: "unit io \<Rightarrow> unit io" where
  "except_pass body w = (case body w of (w1, _) \<Rightarrow> (w1, Inr ()))"

text \<open>Every call that leaves the process is logged and is a point where Ctrl-C can arrive.\<close>

definition interrupt_point :: "event \<Rightarrow> unit io" where
  "interrupt_point ev w =
     (let w1 = w\<lparr>calls := calls w @ [ev]\<rparr> in
      case interrupt_in w1 of
        None \<Rightarrow> (w1, Inr ())
      | Some 0 \<Rightarrow> (w1\<lparr>interrupt_in := None\<rparr>, Inl KeyboardInterrupt)
      | Some (Suc k) \<Rightarrow> (w1\<lparr>interrupt_in := Some k\<rparr>, Inr ()))"

definition no_reply :: reply where
  "no_reply = \<lparr>took = 0, fault = None, retval = 0, stderr_text = []\<rparr>"

definition take_reply :: "reply io" where
  "take_reply w =
     (case replies w of
        [] \<Rightarrow> (w, Inr no_reply)
      | r # rs \<Rightarrow>
          (let w1 = w\<lparr>replies := rs, clock := clock w + took r\<rparr> in
           case fault r of
             Some msg \<Rightarrow> (w1, Inl (Exception msg))
           | None \<Rightarrow> (w1, Inr r)))"

definition ext_call :: "event \<Rightarrow> reply io" where
  "ext_call ev = seq (interrupt_point ev) take_reply"

text \<open>\<open>time.sleep(d)\<close>: ValueError on a negative length, else the clock moves on by \<open>d\<close>.\<close>

definition sleep :: "rat \<Rightarrow> unit io" where
  "sleep d =
     (if d < 0 then raise (Exception ''sleep length must be non-negative'')
      else seq (interrupt_point (Sleep d)) (modify (\<lambda>w. w\<lparr>clock := clock w + d\<rparr>)))"

text \<open>\<open>datetime.now()\<close>.\<close>

definition now :: "rat io" where
  "now w = (w, Inr (clock w))"

text \<open>A \<open>for x in xs: body(x)\<close> loop.\<close>

fun for_each :: "'a list \<Rightarrow> ('a \<Rightarrow> unit io) \<Rightarrow> unit io" where
  "for_each [] body = ret ()"
| "for_each (x # xs) body = seq (body x) (for_each xs body)"

subsection \<open>The file system\<close>

text \<open>Writing a file: a new entry, or a new modification time on the one there.\<close>

definition write_file :: "string \<Rightarrow> rat \<Rightarrow> (string \<times> rat) list \<Rightarrow> (string \<times> rat) list" where
  "write_file p m fs =
     (if p \<in> fst ` set fs then map (\<lambda>(q, n). if q = p then (q, m) else (q, n)) fs
      else fs @ [(p, m)])"

text \<open>POSIX rename: the target, if there, is replaced; the file keeps its modification time.\<close>

definition rename_file :: "string \<Rightarrow> string \<Rightarrow> (string \<times> rat) list \<Rightarrow> (string \<times> rat) list" where
  "rename_file src dst fs =
     (if src = dst then fs
      else map (\<lambda>(p, m). if p = src then (dst, m) else (p, m)) (filter (\<lambda>(p, m). p \<noteq> dst) fs))"

definition os_rename :: "string \<Rightarrow> string \<Rightarrow> unit io" where
  "os_rename src dst =
     seq (ext_call (Rename src dst))
         (\<lambda>w. if src \<in> fst ` set (files w)
              then (w\<lparr>files := rename_file src dst (files w)\<rparr>, Inr ())
              else (w, Inl (Exception ''FileNotFoundError'')))"

text \<open>\<open>fnmatch(name, "screenshot_*.png")\<close>.\<close>

definition is_frame_name :: "string \<Rightarrow> bool" where
  "is_frame_name n =
     (15 \<le> length n \<and> take 11 n = ''screenshot_'' \<and> drop (length n - 4) n = ''.png'')"

text \<open>What \<open>os.path.join(folder, name)\<close> puts before a relative \<open>name\<close>.\<close>

definition dir_prefix :: "string \<Rightarrow> string" where
  "dir_prefix folder = path_join folder []"

text \<open>
  \<open>glob.glob(os.path.join(folder, "screenshot_*.png"))\<close>: the paths of the entries of
  \<open>folder\<close> whose name matches, in the order the directory enumerates them.
\<close>

definition glob_frames :: "string \<Rightarrow> (string \<times> rat) list \<Rightarrow> string list" where
  "glob_frames folder fs =
     filter (\<lambda>p. take (length (dir_prefix folder)) p = dir_prefix folder
                 \<and> CHR ''/'' \<notin> set (drop (length (dir_prefix folder)) p)
                 \<and> is_frame_name (drop (length (dir_prefix folder)) p))
            (map fst fs)"

text \<open>
  \<open>files.sort(key=os.path.getmtime)\<close>: a stable sort on the modification time; getmtime
  raises on a path that is not there.
\<close>

definition sort_by_mtime :: "(string \<times> rat) list \<Rightarrow> string list \<Rightarrow> exn + string list" where
  "sort_by_mtime fs ps =
     (if list_all (\<lambda>p. map_of fs p \<noteq> None) ps
      then Inr (sort_key (\<lambda>p. the (map_of fs p)) ps)
      else Inl (Exception ''FileNotFoundError''))"

subsection \<open>The capture scheduler\<close>

record args =
  arg_url :: string
  arg_out :: string
  arg_interval :: int
  arg_shots :: "int option"
  arg_duration :: "int option"
  arg_width :: int
  arg_height :: int
  arg_fullpage :: bool
  arg_load_wait :: rat
  arg_fps :: int
  arg_video :: string

definition ensure_out_dir :: "string \<Rightarrow> unit io" where
  "ensure_out_dir path = seq (ext_call (Makedirs path)) (ret ())"

definition new_driver :: "int \<Rightarrow> int \<Rightarrow> driver io" where
  "new_driver width height =
     seq (ext_call (Chrome width height))
    (seq (modify (\<lambda>w. w\<lparr>window := (width, height)\<rparr>))
    (seq (ext_call (SetPageLoadTimeout 120))
         (ret Driver)))"

definition frame_name :: "nat \<Rightarrow> string \<Rightarrow> string" where
  "frame_name idx ts = ''screenshot_'' @ fmt_06d idx @ ''_'' @ ts @ ''.png''"

definition get_timestamped_name :: "nat \<Rightarrow> string io" where
  "get_timestamped_name idx = bind now (\<lambda>t w. (w, Inr (frame_name idx (strftime w t))))"

text \<open>The methods of the Selenium driver the program calls.\<close>

definition driver_get :: "driver \<Rightarrow> string \<Rightarrow> unit io" where
  "driver_get driver url = seq (ext_call (Get url)) (ret ())"

definition execute_script :: "driver \<Rightarrow> script \<Rightarrow> int io" where
  "execute_script driver js = bind (ext_call (ExecuteScript js)) (\<lambda>r. ret (retval r))"

definition get_window_size :: "driver \<Rightarrow> (int \<times> int) io" where
  "get_window_size driver = seq (ext_call GetWindowSize) (\<lambda>w. (w, Inr (window w)))"

definition set_window_size :: "driver \<Rightarrow> int \<Rightarrow> int \<Rightarrow> unit io" where
  "set_window_size driver wd ht =
     seq (ext_call (SetWindowSize wd ht)) (modify (\<lambda>w. w\<lparr>window := (wd, ht)\<rparr>))"

text \<open>\<open>driver.save_screenshot(path)\<close>: on success the file is there, written now.\<close>

definition save_screenshot :: "driver \<Rightarrow> string \<Rightarrow> unit io" where
  "save_screenshot driver path =
     seq (ext_call (SaveScreenshot path))
         (modify (\<lambda>w. w\<lparr>files := write_file path (clock w) (files w)\<rparr>))"

definition driver_quit :: "driver \<Rightarrow> unit io" where
  "driver_quit driver = seq (ext_call Quit) (ret ())"

definition scroll_to_top :: "driver \<Rightarrow> unit io" where
  "scroll_to_top driver = seq (execute_script driver ScrollToTop) (ret ())"

definition fullpage_screenshot :: "driver \<Rightarrow> string \<Rightarrow> unit io" where
  "fullpage_screenshot driver path =
     bind (execute_script driver PageHeight) (\<lambda>total_height.
     let max_height = min total_height 20000 in
     bind (get_window_size driver) (\<lambda>size.
     let wd = fst size in
     seq (set_window_size driver wd max_height)
    (seq (sleep (1 / 2))
         (save_screenshot driver path))))"

definition viewport_screenshot :: "driver \<Rightarrow> string \<Rightarrow> unit io" where
  "viewport_screenshot driver path = save_screenshot driver path"

definition capture_once :: "driver \<Rightarrow> string \<Rightarrow> rat \<Rightarrow> bool \<Rightarrow> string \<Rightarrow> unit io" where
  "capture_once driver url wait_after_load fullpage path =
     seq (driver_get driver url)
    (seq (sleep wait_after_load)
    (seq (scroll_to_top driver)
         (if fullpage
          then except_Exception (fullpage_screenshot driver path)
                                (\<lambda>_. viewport_screenshot driver path)
          else viewport_screenshot driver path)))"

text \<open>The inner \<open>try\<close> of the loop of \<open>main\<close>: a capture, and the report of its outcome.\<close>

definition capture_attempt :: "args \<Rightarrow> driver \<Rightarrow> string \<Rightarrow> unit io" where
  "capture_attempt a driver img_path =
     except_Exception
       (seq (capture_once driver (arg_url a) (arg_load_wait a) (arg_fullpage a) img_path)
            (py_print ''done.''))
       (\<lambda>e. py_print (''error: '' @ e))"

definition capturing_line :: "nat \<Rightarrow> int \<Rightarrow> string \<Rightarrow> string" where
  "capturing_line i nshots img_name =
     ''[*] ['' @ str_nat (i + 1) @ ''/'' @ str_int nshots @ ''] Capturing '' @ img_name @ '' ... ''"

text \<open>One pass of the loop of \<open>main\<close>, for the index \<open>i\<close>.\<close>

definition shot :: "args \<Rightarrow> int \<Rightarrow> driver \<Rightarrow> nat \<Rightarrow> unit io" where
  "shot a nshots driver i =
     bind (get_timestamped_name i) (\<lambda>img_name.
     let img_path = path_join (arg_out a) img_name in
     bind now (\<lambda>t0.
     seq (py_print (capturing_line i nshots img_name))
    (seq (capture_attempt a driver img_path)
         (if int i < nshots - 1
          then bind now (\<lambda>t1.
                 let elapsed = t1 - t0;
                     sleep_for = max 0 (of_int (arg_interval a) - elapsed) in
                 sleep sleep_for)
          else ret ()))))"

definition tick_mark :: string where
  "tick_mark = ''['' @ [CHR 0xE2, CHR 0x9C, CHR 0x93] @ '']''"

text \<open>The body of the outer \<open>try\<close> of \<open>main\<close>, once the driver is there.\<close>

definition capture_all :: "args \<Rightarrow> int \<Rightarrow> driver \<Rightarrow> unit io" where
  "capture_all a nshots driver =
     bind now (\<lambda>start.
     seq (for_each [0..<nat nshots] (shot a nshots driver))
    (bind now (\<lambda>finish w.
       py_print (CHR 0x0A # tick_mark @ '' Finished capturing '' @ str_int nshots
                 @ '' screenshots in ~'' @ str_timedelta w (finish - start)) w)))"

text \<open>\<open>finally: if driver: driver.quit()\<close>, after the outcome \<open>res\<close> of the \<open>try\<close> body.\<close>

definition finally_quit :: "driver option \<Rightarrow> world \<times> (exn + unit) \<Rightarrow> world \<times> (exn + unit)" where
  "finally_quit driver res =
     (case driver of
        None \<Rightarrow> res
      | Some d \<Rightarrow>
          (case driver_quit d (fst res) of
             (w2, Inl e) \<Rightarrow> (w2, Inl e)
           | (w2, Inr _) \<Rightarrow> (w2, snd res)))"

text \<open>
  The \<open>try ... finally\<close> of \<open>main\<close>: \<open>driver\<close> is None until \<open>new_driver\<close> has returned.
\<close>

definition session :: "args \<Rightarrow> int \<Rightarrow> unit io" where
  "session a nshots w =
     (case new_driver (arg_width a) (arg_height a) w of
        (w1, Inl e) \<Rightarrow> finally_quit None (w1, Inl e)
      | (w1, Inr driver) \<Rightarrow> finally_quit (Some driver) (capture_all a nshots driver w1))"

text \<open>
  The number of shots: \<open>args.shots\<close> as it is, or \<open>max(1, int(round(duration / interval)))\<close>.
  argparse gives exactly one of the two.
\<close>

definition count_shots :: "args \<Rightarrow> int io" where
  "count_shots a =
     (case arg_shots a of
        Some n \<Rightarrow> ret n
      | None \<Rightarrow>
          (case arg_duration a of
             None \<Rightarrow> raise (Exception ''unsupported operand type(s) for /'')
           | Some d \<Rightarrow>
               if arg_interval a = 0 then raise (Exception ''division by zero'')
               else ret (max 1 (py_round (of_int d / of_int (arg_interval a))))))"

subsection \<open>The frame assembly\<close>

text \<open>The command the diagnostic proposes when ffmpeg is not installed.\<close>

definition manual_command :: "string \<Rightarrow> int \<Rightarrow> string \<Rightarrow> int \<Rightarrow> string" where
  \<open>manual_command folder fps video_name width =
     ''    ffmpeg -framerate '' @ str_int fps @ '' -pattern_type glob -i "'' @ folder
     @ ''/screenshot_*.png" '' @ ''-vf "scale='' @ str_int width @ '':-1,pad='' @ str_int width
     @ '':ceil(ih/2)*2:0:0:black" -c:v libx264 -pix_fmt yuv420p "''
     @ path_join folder video_name @ ''"'' @ [CHR 0x0A]\<close>

text \<open>The command \<open>cmd\<close> the pipeline runs.\<close>

definition ffmpeg_cmd :: "string \<Rightarrow> int \<Rightarrow> string \<Rightarrow> int \<Rightarrow> string list" where
  "ffmpeg_cmd folder fps video_name width =
     [''ffmpeg'',
      ''-y'',
      ''-framerate'', str_int fps,
      ''-pattern_type'', ''glob'',
      ''-i'', path_join folder ''temp_*.png'',
      ''-vf'', ''scale='' @ str_int width @ '':-1,pad='' @ str_int width @ '':'' @ str_int width
               @ '':0:0:black'',
      ''-c:v'', ''libx264'',
      ''-pix_fmt'', ''yuv420p'',
      path_join folder video_name]"

text \<open>
  \<open>subprocess.run(cmd, ...)\<close> on the ffmpeg command: the reply carries the exit status and
  stderr; on exit status 0 the output file, the last argument, is there afterwards.
\<close>

definition subprocess_run :: "string list \<Rightarrow> reply io" where
  "subprocess_run cmd =
     bind (ext_call (Run cmd)) (\<lambda>res.
     seq (modify (\<lambda>w. if retval res = 0
                       then w\<lparr>files := write_file (last cmd) (clock w) (files w)\<rparr> else w))
         (ret res))"

definition temp_path :: "string \<Rightarrow> nat \<Rightarrow> string" where
  "temp_path folder i = path_join folder (''temp_'' @ fmt_06d i @ ''.png'')"

text \<open>
  The loop \<open>for i, file_path in enumerate(screenshot_files)\<close>, from the ordinal \<open>i\<close> on;
  its result is \<open>temp_files\<close>.
\<close>

fun rename_to_temp :: "string \<Rightarrow> nat \<Rightarrow> string list \<Rightarrow> (string \<times> string) list io" where
  "rename_to_temp folder i [] = ret []"
| "rename_to_temp folder i (file_path # rest) =
     (let temp_name = temp_path folder i in
      seq (os_rename file_path temp_name)
          (bind (rename_to_temp folder (Suc i) rest) (\<lambda>temp_files.
           ret ((file_path, temp_name) # temp_files))))"

text \<open>The loop that restores the original file names.\<close>

fun restore :: "(string \<times> string) list \<Rightarrow> unit io" where
  "restore [] = ret ()"
| "restore ((original_path, temp_name) # rest) =
     seq (except_pass (os_rename temp_name original_path)) (restore rest)"

definition maybe_build_video :: "string \<Rightarrow> int \<Rightarrow> string \<Rightarrow> int \<Rightarrow> bool io" where
  "maybe_build_video folder fps video_name width w =
     (case ffmpeg_path w of
        None \<Rightarrow>
          seq (py_print (CHR 0x0A # ''[!] ffmpeg not found on PATH. Skipping video assembly.''))
         (seq (py_print (''    You can install ffmpeg and run something like:'' @ [CHR 0x0A]))
         (seq (py_print (manual_command folder fps video_name width))
              (ret False))) w
      | Some _ \<Rightarrow>
          (case sort_by_mtime (files w) (glob_frames folder (files w)) of
             Inl e \<Rightarrow> (w, Inl e)
           | Inr screenshot_files \<Rightarrow>
               if screenshot_files = []
               then seq (py_print ''[!] No screenshot files found to build video'') (ret False) w
               else
                 bind (rename_to_temp folder 0 screenshot_files) (\<lambda>temp_files.
                 seq (py_print ''[*] Building video with ffmpeg...'')
                (bind (subprocess_run (ffmpeg_cmd folder fps video_name width)) (\<lambda>res.
                 seq (restore temp_files)
                     (if retval res = 0
                      then seq (py_print (tick_mark @ '' Video saved to: ''
                                          @ path_join folder video_name))
                               (ret True)
                      else seq (py_print (''[!] ffmpeg failed. Output:'' @ [CHR 0x0A] @ '' ''
                                          @ stderr_text res))
                               (ret False))))) w))"

subsection \<open>The program\<close>

text \<open>The statements of \<open>main\<close> before its \<open>try\<close>; the value is \<open>nshots\<close>.\<close>

definition preamble :: "args \<Rightarrow> int io" where
  "preamble a =
     seq (ensure_out_dir (arg_out a))
    (bind (count_shots a) (\<lambda>nshots.
     seq (py_print (''URL: '' @ arg_url a))
    (seq (py_print (''Output folder: '' @ arg_out a))
    (seq (py_print (''Interval: '' @ str_int (arg_interval a) @ ''s | Shots: '' @ str_int nshots
                    @ '' | Full page: '' @ str_bool (arg_fullpage a)))
    (seq (\<lambda>w. py_print (''Viewport: '' @ str_int (arg_width a) @ ''x'' @ str_int (arg_height a)
                         @ '' | Load wait: '' @ str_float w (arg_load_wait a) @ ''s'') w)
    (seq (py_print (''Will attempt to build video at '' @ str_int (arg_fps a) @ '' fps -> ''
                    @ arg_video a @ [CHR 0x0A]))
         (ret nshots)))))))"

definition main :: "args \<Rightarrow> unit io" where
  "main a =
     bind (preamble a) (\<lambda>nshots.
     seq (session a nshots)
    (seq (maybe_build_video (arg_out a) (arg_fps a) (arg_video a) (arg_width a))
         (ret ())))"

text \<open>The \<open>__main__\<close> block: \<open>main()\<close>, and \<open>sys.exit(1)\<close> on KeyboardInterrupt.\<close>

definition entry :: "args \<Rightarrow> unit io" where
  "entry a w =
     (case main a w of
        (w1, Inl KeyboardInterrupt) \<Rightarrow>
          seq (py_print (CHR 0x0A # ''[!] Interrupted by user. Exiting.'')) (raise (SystemExit 1)) w1
      | (w1, r) \<Rightarrow> (w1, r))"

subsection \<open>Vocabulary of the proofs\<close>

text \<open>
  \<open>keeps f m\<close>: the step \<open>m\<close> leaves the observation \<open>f\<close> of the world as it was.
  \<open>calm m\<close>: started with no Ctrl-C pending, \<open>m\<close> ends with none pending and raises
  nothing but an \<open>Exception\<close>.
\<close>

definition keeps :: "(world \<Rightarrow> 'b) \<Rightarrow> 'a io \<Rightarrow> bool" where
  "keeps f m = (\<forall>w. f (fst (m w)) = f w)"

definition is_error :: "exn \<Rightarrow> bool" where
  "is_error e = (case e of Exception _ \<Rightarrow> True | _ \<Rightarrow> False)"

definition calm :: "'a io \<Rightarrow> bool" where
  "calm m = (\<forall>w. interrupt_in w = None \<longrightarrow>
               interrupt_in (fst (m w)) = None
               \<and> (\<forall>e. snd (m w) = Inl e \<longrightarrow> is_error e))"

named_theorems keeps_intros
named_theorems calm_intros

text \<open>The number of \<open>driver.quit()\<close> calls made so far.\<close>

definition quits :: "world \<Rightarrow> nat" where
  "quits w = length (filter (\<lambda>e. e = Quit) (calls w))"

text \<open>
  A world that answers every coming call: no Ctrl-C pending, no reply with a fault. There
  \<open>ext_call ev\<close> returns \<open>next_reply\<close> and leaves the world \<open>answered ev\<close>.
\<close>

definition benign :: "world \<Rightarrow> bool" where
  "benign w = (interrupt_in w = None \<and> list_all (\<lambda>r. fault r = None) (replies w))"

definition next_reply :: "world \<Rightarrow> reply" where
  "next_reply w = (case replies w of [] \<Rightarrow> no_reply | r # _ \<Rightarrow> r)"

definition answered :: "event \<Rightarrow> world \<Rightarrow> world" where
  "answered ev w =
     w\<lparr>calls := calls w @ [ev], replies := tl (replies w), clock := clock w + took (next_reply w)\<rparr>"

text \<open>Reading a decimal numeral back: the inverse of \<open>str_nat\<close> and of \<open>fmt_06d\<close>.\<close>

definition digit_val :: "char \<Rightarrow> nat" where
  "digit_val ch = of_char ch - 48"

definition parse_nat :: "string \<Rightarrow> nat" where
  "parse_nat s = foldl (\<lambda>acc ch. 10 * acc + digit_val ch) 0 s"

text \<open>The paths of the files there are; the reply to the call after the next \<open>k\<close> calls.\<close>

definition paths :: "world \<Rightarrow> string set" where
  "paths w = fst ` set (files w)"

definition nth_reply :: "world \<Rightarrow> nat \<Rightarrow> reply" where
  "nth_reply w k = (if k < length (replies w) then replies w ! k else no_reply)"

text \<open>
  The list \<open>temp_files\<close> of \<open>maybe_build_video\<close> once its renaming loop is over: the
  frame files in the order of the sort, each with its temporary name.
\<close>

definition temp_files :: "string \<Rightarrow> world \<Rightarrow> (string \<times> string) list" where
  "temp_files folder w =
     zip (sort_key (\<lambda>p. the (map_of (files w) p)) (glob_frames folder (files w)))
         (map (temp_path folder) [0..<length (glob_frames folder (files w))])"

subsection \<open>Concrete worlds\<close>

text \<open>Worlds the theorems below are run on.\<close>

definition ok_reply :: reply where
  "ok_reply = \<lparr>took = 1, fault = None, retval = 0, stderr_text = []\<rparr>"

definition demo_world :: world where
  "demo_world =
     \<lparr>clock = 100, strftime = (\<lambda>t. str_int \<lfloor>t\<rfloor>), str_timedelta = (\<lambda>t. str_int \<lfloor>t\<rfloor>),
      str_float = (\<lambda>t. str_int \<lfloor>t\<rfloor>), replies = [], interrupt_in = None, calls = [],
      stdout = [], files = [], window = (0, 0), ffmpeg_path = Some ''/usr/bin/ffmpeg''\<rparr>"

definition two_frames :: "(string \<times> rat) list" where
  "two_frames = [(''out/screenshot_a.png'', 1), (''out/screenshot_b.png'', 2)]"

text \<open>Two frames; the first rename back to an original name fails.\<close>

definition restore_fault_world :: world where
  "restore_fault_world =
     demo_world\<lparr>files := two_frames,
                replies := [ok_reply, ok_reply, ok_reply,
                            ok_reply\<lparr>fault := Some ''Permission denied''\<rparr>, ok_reply]\<rparr>"

text \<open>Two frames; ffmpeg exits with status 1.\<close>

definition encoder_fails_world :: world where
  "encoder_fails_world =
     demo_world\<lparr>files := two_frames,
                replies := [ok_reply, ok_reply,
                            ok_reply\<lparr>retval := 1, stderr_text := ''no such filter''\<rparr>]\<rparr>"


definition demo_args :: args where
  "demo_args =
     \<lparr>arg_url = ''https://example.com'', arg_out = ''out'', arg_interval = 10,
      arg_shots = Some 3, arg_duration = None, arg_width = 1280, arg_height = 800,
      arg_fullpage = True, arg_load_wait = 3, arg_fps = 12, arg_video = ''timelapse.mp4''\<rparr>"

text \<open>Three full-page ticks; the navigation of the second one fails.\<close>

definition flaky_world :: world where
  "flaky_world =
     demo_world\<lparr>replies :=
       [ok_reply, ok_reply, ok_reply, ok_reply, ok_reply, ok_reply,
        ok_reply\<lparr>fault := Some ''net::ERR_CONNECTION_REFUSED''\<rparr>,
        ok_reply, ok_reply, ok_reply, ok_reply, ok_reply, ok_reply]\<rparr>"

text \<open>
  A whole run of three full-page ticks: the directory and the browser are set up, then the
  navigation of the second tick fails.
\<close>

definition flaky_session_world :: world where
  "flaky_session_world =
     demo_world\<lparr>replies :=
       [ok_reply, ok_reply, ok_reply,
        ok_reply, ok_reply, ok_reply, ok_reply, ok_reply, ok_reply,
        ok_reply\<lparr>fault := Some ''net::ERR_CONNECTION_REFUSED''\<rparr>,
        ok_reply, ok_reply, ok_reply, ok_reply, ok_reply, ok_reply]\<rparr>"

text \<open>A page whose every call takes five seconds: a capture longer than the interval.\<close>

definition slow_world :: world where
  "slow_world =
     demo_world\<lparr>replies :=
       [ok_reply\<lparr>took := 5\<rparr>, ok_reply\<lparr>took := 5\<rparr>, ok_reply\<lparr>took := 5\<rparr>,
        ok_reply\<lparr>took := 5\<rparr>, ok_reply\<lparr>took := 5\<rparr>, ok_reply\<lparr>took := 5\<rparr>]\<rparr>"

text \<open>Ctrl-C arrives during the eighth call: the window size query of the first tick.\<close>

definition interrupted_world :: world where
  "interrupted_world = demo_world\<lparr>interrupt_in := Some 7\<rparr>"

text \<open>A full-page tick whose resize of the window fails; the worlds between its steps.\<close>

definition resize_fault_world :: world where
  "resize_fault_world =
     demo_world\<lparr>replies :=
       [ok_reply, ok_reply, ok_reply\<lparr>retval := 5000\<rparr>, ok_reply,
        ok_reply\<lparr>fault := Some ''resize failed''\<rparr>, ok_reply]\<rparr>"

definition resize_w1 :: world where
  "resize_w1 = fst (driver_get Driver (arg_url demo_args) resize_fault_world)"

definition resize_w2 :: world where
  "resize_w2 = fst (sleep (arg_load_wait demo_args) resize_w1)"

definition resize_w3 :: world where
  "resize_w3 = fst (scroll_to_top Driver resize_w2)"

definition resize_w4 :: world where
  "resize_w4 = fst (fullpage_screenshot Driver ''out/f.png'' resize_w3)"

text \<open>The command line \<open>--shots -2\<close>.\<close>

definition no_shot_args :: args where
  "no_shot_args = demo_args\<lparr>arg_shots := Some (- 2)\<rparr>"

text \<open>Three frames whose names sort \<open>a, b, c\<close> and whose modification times sort \<open>c, a, b\<close>.\<close>

definition three_frames_world :: world where
  "three_frames_world =
     demo_world\<lparr>files := [(''out/screenshot_a.png'', 20), (''out/screenshot_b.png'', 30),
                          (''out/screenshot_c.png'', 10)]\<rparr>"

section \<open>Properties\<close>

subsection \<open>Sequencing\<close>

lemma seq_apply:
  "seq m n w = (case m w of (w1, Inl e) \<Rightarrow> (w1, Inl e) | (w1, Inr x) \<Rightarrow> n w1)"
  by (simp add: seq_def bind_def)

subsection \<open>What one call changes\<close>

lemma ext_call_calls: "calls (fst (ext_call ev w)) = calls w @ [ev]"
  by (auto simp: ext_call_def seq_def bind_def interrupt_point_def take_reply_def Let_def
      split: option.splits nat.splits list.splits)

lemma ext_call_stdout: "stdout (fst (ext_call ev w)) = stdout w"
  by (auto simp: ext_call_def seq_def bind_def interrupt_point_def take_reply_def Let_def
      split: option.splits nat.splits list.splits)

lemma os_rename_calls: "calls (fst (os_rename src dst w)) = calls w @ [Rename src dst]"
  using ext_call_calls [of "Rename src dst" w]
  by (cases "ext_call (Rename src dst) w") (auto simp: os_rename_def seq_apply split: sum.splits)

lemma os_rename_stdout: "stdout (fst (os_rename src dst w)) = stdout w"
  using ext_call_stdout [of "Rename src dst" w]
  by (cases "ext_call (Rename src dst) w") (auto simp: os_rename_def seq_apply split: sum.splits)

subsection \<open>The restoration loop\<close>

lemma restore_apply_Cons:
  "restore ((orig, tmp) # rest) w = restore rest (fst (os_rename tmp orig w))"
  by (cases "os_rename tmp orig w") (simp add: seq_apply except_pass_def)

lemma restore_never_raises: "snd (restore tf w) = Inr ()"
  by (induction tf arbitrary: w)
     (auto simp: ret_def restore_apply_Cons simp del: restore.simps(2))

lemma restore_stdout: "stdout (fst (restore tf w)) = stdout w"
  by (induction tf arbitrary: w)
     (auto simp: ret_def restore_apply_Cons os_rename_stdout simp del: restore.simps(2))

lemma restore_calls:
  "calls (fst (restore tf w)) = calls w @ map (\<lambda>(orig, tmp). Rename tmp orig) tf"
  by (induction tf arbitrary: w)
     (auto simp: ret_def restore_apply_Cons os_rename_calls simp del: restore.simps(2))

subsection \<open>The scheduler without Ctrl-C\<close>

lemma keepsD: "keeps f m \<Longrightarrow> f (fst (m w)) = f w"
  by (simp add: keeps_def)

lemma keeps_ret [keeps_intros]: "keeps f (ret x)"
  by (simp add: keeps_def ret_def)

lemma keeps_raise [keeps_intros]: "keeps f (raise e)"
  by (simp add: keeps_def raise_def)

lemma keeps_now [keeps_intros]: "keeps f now"
  by (simp add: keeps_def now_def)

lemma keeps_read [keeps_intros]: "keeps f (\<lambda>w. (w, Inr (g w)))"
  by (simp add: keeps_def)

lemma keeps_bind [keeps_intros]:
  "keeps f m \<Longrightarrow> (\<And>x. keeps f (g x)) \<Longrightarrow> keeps f (bind m g)"
  unfolding keeps_def bind_def
proof (intro allI)
  fix w
  assume m: "\<forall>w. f (fst (m w)) = f w" and g: "\<And>x. \<forall>w. f (fst (g x w)) = f w"
  obtain w1 r where mw: "m w = (w1, r)" by (cases "m w")
  from m have "f w1 = f w" using mw by (metis fst_conv)
  then show "f (fst (case m w of (w1, Inl e) \<Rightarrow> (w1, Inl e) | (w1, Inr x) \<Rightarrow> g x w1)) = f w"
    using mw g by (cases r) auto
qed

lemma keeps_seq [keeps_intros]: "keeps f m \<Longrightarrow> keeps f n \<Longrightarrow> keeps f (seq m n)"
  by (simp add: seq_def keeps_bind)

lemma keeps_modify: "(\<And>w. f (g w) = f w) \<Longrightarrow> keeps f (modify g)"
  by (simp add: keeps_def modify_def)

lemma keeps_except_Exception [keeps_intros]:
  "keeps f b \<Longrightarrow> (\<And>e. keeps f (h e)) \<Longrightarrow> keeps f (except_Exception b h)"
  unfolding keeps_def except_Exception_def
proof (intro allI)
  fix w
  assume b: "\<forall>w. f (fst (b w)) = f w" and h: "\<And>e. \<forall>w. f (fst (h e w)) = f w"
  obtain w1 r where bw: "b w = (w1, r)" by (cases "b w")
  from b have "f w1 = f w" using bw by (metis fst_conv)
  then show "f (fst (case b w of (w1, Inl (Exception e)) \<Rightarrow> h e w1 | (w1, r) \<Rightarrow> (w1, r))) = f w"
    using bw h by (auto split: sum.splits exn.splits)
qed

lemma keeps_except_pass [keeps_intros]: "keeps f b \<Longrightarrow> keeps f (except_pass b)"
  by (auto simp: keeps_def except_pass_def split: prod.splits) (metis fst_conv)

lemma keeps_if [keeps_intros]: "keeps f m \<Longrightarrow> keeps f n \<Longrightarrow> keeps f (if c then m else n)"
  by simp

lemma keeps_for_each [keeps_intros]: "(\<And>x. keeps f (body x)) \<Longrightarrow> keeps f (for_each xs body)"
  by (induction xs) (auto intro: keeps_intros)

lemma keeps_seq_fst: "keeps f n \<Longrightarrow> f (fst (seq m n w)) = f (fst (m w))"
  by (cases "m w") (auto simp: seq_apply keeps_def split: sum.splits)

text \<open>What the calls leave of stdout.\<close>

lemma keeps_stdout_interrupt_point [keeps_intros]: "keeps stdout (interrupt_point ev)"
  by (auto simp: keeps_def interrupt_point_def Let_def split: option.splits nat.splits)

lemma keeps_stdout_take_reply [keeps_intros]: "keeps stdout take_reply"
  by (auto simp: keeps_def take_reply_def Let_def split: option.splits list.splits)

lemma keeps_stdout_ext_call [keeps_intros]: "keeps stdout (ext_call ev)"
  by (simp add: ext_call_def keeps_intros)

lemma keeps_stdout_sleep [keeps_intros]: "keeps stdout (sleep d)"
  by (auto simp: sleep_def intro!: keeps_intros keeps_modify)

lemma keeps_stdout_capture_once [keeps_intros]:
  "keeps stdout (capture_once d url wait fp path)"
  by (auto simp: capture_once_def driver_get_def scroll_to_top_def execute_script_def
        fullpage_screenshot_def get_window_size_def set_window_size_def save_screenshot_def
        viewport_screenshot_def Let_def
      intro!: keeps_intros keeps_modify)

text \<open>What the calls leave of the log of calls.\<close>

lemma keeps_calls_interrupt_point [keeps_intros]:
  "\<not> P ev \<Longrightarrow> keeps (\<lambda>w. filter P (calls w)) (interrupt_point ev)"
  by (auto simp: keeps_def interrupt_point_def Let_def split: option.splits nat.splits)

lemma keeps_calls_take_reply [keeps_intros]: "keeps (\<lambda>w. filter P (calls w)) take_reply"
  by (auto simp: keeps_def take_reply_def Let_def split: option.splits list.splits)

lemma keeps_calls_ext_call [keeps_intros]:
  "\<not> P ev \<Longrightarrow> keeps (\<lambda>w. filter P (calls w)) (ext_call ev)"
  by (simp add: ext_call_def keeps_intros)

lemma keeps_calls_sleep [keeps_intros]:
  "\<not> P (Sleep d) \<Longrightarrow> keeps (\<lambda>w. filter P (calls w)) (sleep d)"
  by (auto simp: sleep_def intro!: keeps_intros keeps_modify)

lemma keeps_calls_py_print [keeps_intros]: "keeps (\<lambda>w. filter P (calls w)) (py_print s)"
  by (simp add: py_print_def keeps_modify)

text \<open>Steps that raise nothing but an Exception.\<close>

lemma calmD:
  "calm m \<Longrightarrow> interrupt_in w = None \<Longrightarrow> m w = (w1, r) \<Longrightarrow>
     interrupt_in w1 = None \<and> (\<forall>e. r = Inl e \<longrightarrow> is_error e)"
  unfolding calm_def by (metis fst_conv snd_conv)

lemma calmI:
  "(\<And>w w1 r. interrupt_in w = None \<Longrightarrow> m w = (w1, r) \<Longrightarrow>
       interrupt_in w1 = None \<and> (\<forall>e. r = Inl e \<longrightarrow> is_error e)) \<Longrightarrow> calm m"
  unfolding calm_def by (metis prod.collapse)

lemma calm_ret [calm_intros]: "calm (ret x)"
  by (simp add: calm_def ret_def)

lemma calm_raise [calm_intros]: "calm (raise (Exception s))"
  by (simp add: calm_def raise_def is_error_def)

lemma calm_now [calm_intros]: "calm now"
  by (simp add: calm_def now_def)

lemma calm_read [calm_intros]: "calm (\<lambda>w. (w, Inr (g w)))"
  by (simp add: calm_def)

lemma calm_bind [calm_intros]: "calm m \<Longrightarrow> (\<And>x. calm (g x)) \<Longrightarrow> calm (bind m g)"
proof (rule calmI)
  fix w w1 r
  assume m: "calm m" and g: "\<And>x. calm (g x)" and w: "interrupt_in w = None"
    and b: "bind m g w = (w1, r)"
  obtain w2 r2 where mw: "m w = (w2, r2)" by (cases "m w")
  note c = calmD [OF m w mw]
  show "interrupt_in w1 = None \<and> (\<forall>e. r = Inl e \<longrightarrow> is_error e)"
  proof (cases r2)
    case (Inl e)
    with b mw c show ?thesis by (auto simp: bind_def)
  next
    case (Inr x)
    with b mw have "g x w2 = (w1, r)" by (simp add: bind_def)
    from calmD [OF g _ this] c show ?thesis by simp
  qed
qed

lemma calm_seq [calm_intros]: "calm m \<Longrightarrow> calm n \<Longrightarrow> calm (seq m n)"
  by (simp add: seq_def calm_bind)

lemma calm_modify: "(\<And>w. interrupt_in (g w) = interrupt_in w) \<Longrightarrow> calm (modify g)"
  by (simp add: calm_def modify_def)

lemma calm_py_print [calm_intros]: "calm (py_print s)"
  by (simp add: py_print_def calm_modify)

lemma calm_if [calm_intros]: "calm m \<Longrightarrow> calm n \<Longrightarrow> calm (if c then m else n)"
  by simp

lemma calm_interrupt_point [calm_intros]: "calm (interrupt_point ev)"
  by (auto simp: calm_def interrupt_point_def Let_def)

lemma calm_take_reply [calm_intros]: "calm take_reply"
  by (auto simp: calm_def take_reply_def Let_def is_error_def split: option.splits list.splits)

lemma calm_ext_call [calm_intros]: "calm (ext_call ev)"
  by (simp add: ext_call_def calm_intros)

lemma calm_sleep [calm_intros]: "calm (sleep d)"
  by (auto simp: sleep_def intro!: calm_intros calm_modify)

lemma calm_except_Exception [calm_intros]:
  "calm b \<Longrightarrow> (\<And>e. calm (h e)) \<Longrightarrow> calm (except_Exception b h)"
proof (rule calmI)
  fix w w1 r
  assume b: "calm b" and h: "\<And>e. calm (h e)" and w: "interrupt_in w = None"
    and x: "except_Exception b h w = (w1, r)"
  obtain w2 r2 where bw: "b w = (w2, r2)" by (cases "b w")
  note c = calmD [OF b w bw]
  show "interrupt_in w1 = None \<and> (\<forall>e. r = Inl e \<longrightarrow> is_error e)"
  proof (cases r2)
    case (Inl e)
    with c obtain msg where e: "e = Exception msg"
      by (cases e) (auto simp: is_error_def)
    with x bw Inl have "h msg w2 = (w1, r)" by (simp add: except_Exception_def)
    from calmD [OF h _ this] c show ?thesis by simp
  next
    case (Inr y)
    with x bw c show ?thesis by (auto simp: except_Exception_def)
  qed
qed

lemma calm_capture_once [calm_intros]: "calm (capture_once d url wait fp path)"
  by (auto simp: capture_once_def driver_get_def scroll_to_top_def execute_script_def
        fullpage_screenshot_def get_window_size_def set_window_size_def save_screenshot_def
        viewport_screenshot_def Let_def
      intro!: calm_intros calm_modify)

lemma capture_attempt_returns:
  assumes w: "interrupt_in w = None"
  shows "\<exists>w1 out. capture_attempt a d p w = (w1\<lparr>stdout := stdout w @ [out]\<rparr>, Inr ())
           \<and> fst (capture_once d (arg_url a) (arg_load_wait a) (arg_fullpage a) p w) = w1
           \<and> interrupt_in w1 = None
           \<and> (out = ''done.'' \<or> (\<exists>e. out = ''error: '' @ e))"
proof -
  let ?c = "capture_once d (arg_url a) (arg_load_wait a) (arg_fullpage a) p"
  obtain w1 r where c: "?c w = (w1, r)" by (cases "?c w")
  from calmD [OF calm_capture_once w c]
  have i: "interrupt_in w1 = None" and e: "\<forall>e. r = Inl e \<longrightarrow> is_error e" by auto
  have s: "stdout w1 = stdout w"
    using keepsD [OF keeps_stdout_capture_once, of d "arg_url a" "arg_load_wait a" "arg_fullpage a" p w] c
    by simp
  show ?thesis
  proof (cases r)
    case (Inl x)
    with e obtain msg where "x = Exception msg" by (cases x) (auto simp: is_error_def)
    with Inl c s i show ?thesis
      by (auto simp: capture_attempt_def except_Exception_def seq_apply py_print_def modify_def)
  next
    case (Inr u)
    with c s i show ?thesis
      by (auto simp: capture_attempt_def except_Exception_def seq_apply py_print_def modify_def)
  qed
qed

lemma shot_apply:
  "shot a n d i w =
     seq (capture_attempt a d (path_join (arg_out a) (frame_name i (strftime w (clock w)))))
         (if int i < n - 1
          then bind now (\<lambda>t1. sleep (max 0 (of_int (arg_interval a) - (t1 - clock w))))
          else ret ())
       (w\<lparr>stdout := stdout w @ [capturing_line i n (frame_name i (strftime w (clock w)))]\<rparr>)"
  by (auto simp: shot_def get_timestamped_name_def bind_def now_def Let_def seq_apply
      py_print_def modify_def split: prod.splits sum.splits)

lemma sleep_apply:
  "0 \<le> x \<Longrightarrow> interrupt_in w = None \<Longrightarrow>
     sleep x w = (w\<lparr>calls := calls w @ [Sleep x], clock := clock w + x\<rparr>, Inr ())"
  by (simp add: sleep_def seq_apply interrupt_point_def modify_def)

lemma capture_once_gets:
  "filter (\<lambda>e. e = Get url) (calls (fst (capture_once d url wait fp path w)))
     = filter (\<lambda>e. e = Get url) (calls w) @ [Get url]"
proof -
  have k: "keeps (\<lambda>w. filter (\<lambda>e. e = Get url) (calls w))
     (seq (sleep wait)
       (seq (scroll_to_top d)
         (if fp then except_Exception (fullpage_screenshot d path) (\<lambda>_. viewport_screenshot d path)
          else viewport_screenshot d path)))"
    by (auto simp: scroll_to_top_def execute_script_def
        fullpage_screenshot_def get_window_size_def set_window_size_def save_screenshot_def
        viewport_screenshot_def Let_def
      intro!: keeps_intros keeps_modify)
  have g: "calls (fst (driver_get d url w)) = calls w @ [Get url]"
    using ext_call_calls [of "Get url" w]
    by (cases "ext_call (Get url) w") (auto simp: driver_get_def seq_apply ret_def split: sum.splits)
  show ?thesis
    unfolding capture_once_def by (simp add: keeps_seq_fst [OF k] g)
qed

lemma shot_returns:
  assumes w: "interrupt_in w = None"
  shows "\<exists>w1 out. shot a n d i w = (w1, Inr ()) \<and> interrupt_in w1 = None
           \<and> stdout w1 = stdout w @ [capturing_line i n (frame_name i (strftime w (clock w))), out]
           \<and> (out = ''done.'' \<or> (\<exists>e. out = ''error: '' @ e))
           \<and> filter (\<lambda>e. e = Get (arg_url a)) (calls w1)
               = filter (\<lambda>e. e = Get (arg_url a)) (calls w) @ [Get (arg_url a)]"
proof -
  let ?p = "path_join (arg_out a) (frame_name i (strftime w (clock w)))"
  let ?w = "w\<lparr>stdout := stdout w @ [capturing_line i n (frame_name i (strftime w (clock w)))]\<rparr>"
  have "interrupt_in ?w = None" using w by simp
  from capture_attempt_returns [OF this, of a d ?p]
  obtain w1 out where c: "capture_attempt a d ?p ?w = (w1\<lparr>stdout := stdout ?w @ [out]\<rparr>, Inr ())"
    and f: "fst (capture_once d (arg_url a) (arg_load_wait a) (arg_fullpage a) ?p ?w) = w1"
    and i: "interrupt_in w1 = None"
    and o: "out = ''done.'' \<or> (\<exists>e. out = ''error: '' @ e)" by blast
  have g: "filter (\<lambda>e. e = Get (arg_url a)) (calls w1)
             = filter (\<lambda>e. e = Get (arg_url a)) (calls w) @ [Get (arg_url a)]"
    using capture_once_gets [of "arg_url a" d "arg_load_wait a" "arg_fullpage a" ?p ?w] f by simp
  show ?thesis
    using c i o g
    by (auto simp: shot_apply seq_apply bind_def now_def ret_def sleep_apply)
qed

lemma loop_runs:
  assumes "interrupt_in w = None"
  shows "\<exists>w1 los. for_each is (shot a n d) w = (w1, Inr ()) \<and> interrupt_in w1 = None
           \<and> length los = length is
           \<and> (\<forall>out \<in> set (map snd los). out = ''done.'' \<or> (\<exists>e. out = ''error: '' @ e))
           \<and> stdout w1 = stdout w
                @ concat (map (\<lambda>(i, t, out). [capturing_line i n (frame_name i t), out]) (zip is los))
           \<and> length (filter (\<lambda>e. e = Get (arg_url a)) (calls w1))
               = length (filter (\<lambda>e. e = Get (arg_url a)) (calls w)) + length is"
  using assms
proof (induction "is" arbitrary: w)
  case Nil
  then show ?case by (simp add: ret_def)
next
  case (Cons i "is")
  from shot_returns [OF Cons.prems, of a n d i]
  obtain w1 out where s: "shot a n d i w = (w1, Inr ())" and i1: "interrupt_in w1 = None"
    and o1: "stdout w1 = stdout w @ [capturing_line i n (frame_name i (strftime w (clock w))), out]"
    and d1: "out = ''done.'' \<or> (\<exists>e. out = ''error: '' @ e)"
    and g1: "filter (\<lambda>e. e = Get (arg_url a)) (calls w1)
               = filter (\<lambda>e. e = Get (arg_url a)) (calls w) @ [Get (arg_url a)]" by blast
  from Cons.IH [OF i1]
  obtain w2 los where l: "for_each is (shot a n d) w1 = (w2, Inr ())" and i2: "interrupt_in w2 = None"
    and n2: "length los = length is"
    and d2: "\<forall>out \<in> set (map snd los). out = ''done.'' \<or> (\<exists>e. out = ''error: '' @ e)"
    and o2: "stdout w2 = stdout w1
                @ concat (map (\<lambda>(i, t, out). [capturing_line i n (frame_name i t), out]) (zip is los))"
    and g2: "length (filter (\<lambda>e. e = Get (arg_url a)) (calls w2))
               = length (filter (\<lambda>e. e = Get (arg_url a)) (calls w1)) + length is" by blast
  let ?los = "(strftime w (clock w), out) # los"
  have "for_each (i # is) (shot a n d) w = (w2, Inr ())" using s l by (simp add: seq_apply)
  moreover have "length ?los = length (i # is)" using n2 by simp
  moreover have "\<forall>out \<in> set (map snd ?los). out = ''done.'' \<or> (\<exists>e. out = ''error: '' @ e)"
    using d1 d2 by simp
  moreover have "stdout w2 = stdout w
      @ concat (map (\<lambda>(i, t, out). [capturing_line i n (frame_name i t), out]) (zip (i # is) ?los))"
    using o1 o2 by simp
  moreover have "length (filter (\<lambda>e. e = Get (arg_url a)) (calls w2))
               = length (filter (\<lambda>e. e = Get (arg_url a)) (calls w)) + length (i # is)"
    using g1 g2 by simp
  ultimately show ?case using i2 by blast
qed

lemma zip_upt_nth:
  "length xs = n \<Longrightarrow> map f (zip [0..<n] xs) = map (\<lambda>i. f (i, xs ! i)) [0..<n]"
  by (rule nth_equalityI) auto

subsection \<open>The log of calls\<close>

lemma pairI: "snd p = r \<Longrightarrow> p = (fst p, r)"
  by (cases p) simp

lemma keeps_quits: "keeps (\<lambda>w. filter (\<lambda>e. e = Quit) (calls w)) m \<Longrightarrow> keeps quits m"
  by (simp add: keeps_def quits_def)

lemma keeps_calls_os_rename [keeps_intros]:
  "\<not> P (Rename src dst) \<Longrightarrow> keeps (\<lambda>w. filter P (calls w)) (os_rename src dst)"
  unfolding os_rename_def
  by (rule keeps_seq, erule keeps_calls_ext_call) (simp add: keeps_def)

lemma keeps_calls_rename_to_temp [keeps_intros]:
  "(\<And>s d. \<not> P (Rename s d)) \<Longrightarrow> keeps (\<lambda>w. filter P (calls w)) (rename_to_temp folder i ps)"
  by (induction ps arbitrary: i) (auto simp: Let_def intro!: keeps_intros)

lemma keeps_calls_restore [keeps_intros]:
  "(\<And>s d. \<not> P (Rename s d)) \<Longrightarrow> keeps (\<lambda>w. filter P (calls w)) (restore tf)"
  by (induction tf) (auto intro!: keeps_intros)

lemma keeps_calls_subprocess_run [keeps_intros]:
  "\<not> P (Run cmd) \<Longrightarrow> keeps (\<lambda>w. filter P (calls w)) (subprocess_run cmd)"
  by (auto simp: subprocess_run_def intro!: keeps_intros keeps_modify)

lemma keeps_calls_maybe_build_video [keeps_intros]:
  assumes "\<And>s d. \<not> P (Rename s d)" "\<And>c. \<not> P (Run c)"
  shows "keeps (\<lambda>w. filter P (calls w)) (maybe_build_video folder fps video_name width)"
  unfolding keeps_def
proof
  fix w
  let ?f = "\<lambda>w. filter P (calls w)"
  have a: "keeps ?f
     (seq (py_print (CHR 0x0A # ''[!] ffmpeg not found on PATH. Skipping video assembly.''))
         (seq (py_print (''    You can install ffmpeg and run something like:'' @ [CHR 0x0A]))
         (seq (py_print (manual_command folder fps video_name width))
              (ret False))))"
    by (intro keeps_intros)
  have b: "keeps ?f (seq (py_print ''[!] No screenshot files found to build video'') (ret False))"
    by (intro keeps_intros)
  have c: "keeps ?f
     (bind (rename_to_temp folder 0 ps) (\<lambda>temp_files.
                 seq (py_print ''[*] Building video with ffmpeg...'')
                (bind (subprocess_run (ffmpeg_cmd folder fps video_name width)) (\<lambda>res.
                 seq (restore temp_files)
                     (if retval res = 0
                      then seq (py_print (tick_mark @ '' Video saved to: ''
                                          @ path_join folder video_name))
                               (ret True)
                      else seq (py_print (''[!] ffmpeg failed. Output:'' @ [CHR 0x0A] @ '' ''
                                          @ stderr_text res))
                               (ret False))))))" for ps
    using assms by (intro keeps_intros) auto
  show "?f (fst (maybe_build_video folder fps video_name width w)) = ?f w"
    using keepsD [OF a, of w] keepsD [OF b, of w] keepsD [OF c, of _ w]
    by (auto simp: maybe_build_video_def split: option.splits sum.splits)
qed

lemma keeps_calls_shot [keeps_intros]:
  assumes "\<And>u. \<not> P (Get u)" "\<And>x. \<not> P (Sleep x)" "\<And>j. \<not> P (ExecuteScript j)" "\<not> P GetWindowSize"
    "\<And>x y. \<not> P (SetWindowSize x y)" "\<And>p. \<not> P (SaveScreenshot p)"
  shows "keeps (\<lambda>w. filter P (calls w)) (shot a n d i)"
  using assms
  by (auto simp: shot_def capture_attempt_def get_timestamped_name_def
        capture_once_def driver_get_def scroll_to_top_def execute_script_def
        fullpage_screenshot_def get_window_size_def set_window_size_def save_screenshot_def
        viewport_screenshot_def Let_def
      intro!: keeps_intros keeps_modify)

lemma keeps_quit_capture_all:
  "keeps (\<lambda>w. filter (\<lambda>e. e = Quit) (calls w)) (capture_all a n d)"
  unfolding capture_all_def
  by (intro keeps_intros keeps_calls_shot) (auto simp: keeps_def py_print_def modify_def)

lemma keeps_quit_new_driver:
  "keeps (\<lambda>w. filter (\<lambda>e. e = Quit) (calls w)) (new_driver wd ht)"
  unfolding new_driver_def
  by (intro keeps_intros keeps_modify) auto

lemma keeps_quit_preamble:
  "keeps (\<lambda>w. filter (\<lambda>e. e = Quit) (calls w)) (preamble a)"
  unfolding preamble_def ensure_out_dir_def count_shots_def
  by (intro keeps_intros)
     (auto simp: keeps_def py_print_def modify_def ret_def raise_def split: option.splits)

lemma driver_quit_calls: "calls (fst (driver_quit d w)) = calls w @ [Quit]"
  using ext_call_calls [of Quit w]
  by (cases "ext_call Quit w") (auto simp: driver_quit_def seq_apply ret_def split: sum.splits)

lemma finally_quit_calls:
  "calls (fst (finally_quit (Some d) res)) = calls (fst res) @ [Quit]"
  using driver_quit_calls [of d "fst res"]
  by (cases "driver_quit d (fst res)") (auto simp: finally_quit_def split: sum.splits)

lemma session_calls:
  assumes "new_driver (arg_width a) (arg_height a) w = (w1, Inr d)"
  shows "calls (fst (session a n w)) = calls (fst (capture_all a n d w1)) @ [Quit]"
  using assms by (simp add: session_def finally_quit_calls)

lemma session_quits:
  assumes "new_driver (arg_width a) (arg_height a) w = (w1, Inr d)"
  shows "quits (fst (session a n w)) = quits w + 1"
proof -
  have "filter (\<lambda>e. e = Quit) (calls w1) = filter (\<lambda>e. e = Quit) (calls w)"
    using keepsD [OF keeps_quit_new_driver, of "arg_width a" "arg_height a" w] assms by simp
  moreover have "filter (\<lambda>e. e = Quit) (calls (fst (capture_all a n d w1)))
                 = filter (\<lambda>e. e = Quit) (calls w1)"
    using keepsD [OF keeps_quit_capture_all] .
  ultimately show ?thesis
    by (simp add: quits_def session_calls [OF assms])
qed

lemma main_quits:
  assumes p: "preamble a w = (w0, Inr n)"
    and d: "new_driver (arg_width a) (arg_height a) w0 = (w1, Inr d)"
  shows "quits (fst (main a w)) = quits w + 1"
proof -
  let ?v = "seq (maybe_build_video (arg_out a) (arg_fps a) (arg_video a) (arg_width a)) (ret ())"
  have v: "keeps quits ?v"
    by (intro keeps_quits keeps_intros) auto
  have "quits w0 = quits w"
    using keepsD [OF keeps_quits [OF keeps_quit_preamble], of a w] p by simp
  moreover have "main a w = seq (session a n) ?v w0"
    using p by (simp add: main_def bind_def)
  moreover have "quits (fst (seq (session a n) ?v w0)) = quits (fst (session a n w0))"
    by (rule keeps_seq_fst [OF v])
  ultimately show ?thesis using session_quits [OF d, of n] by simp
qed

lemma entry_quits: "quits (fst (entry a w)) = quits (fst (main a w))"
  by (cases "main a w")
     (auto simp: entry_def seq_apply py_print_def modify_def raise_def quits_def
      split: sum.splits exn.splits)

subsection \<open>Worlds that answer every call\<close>

lemma ext_call_benign: "benign w \<Longrightarrow> ext_call ev w = (answered ev w, Inr (next_reply w))"
  by (cases w)
     (auto simp: benign_def ext_call_def seq_apply interrupt_point_def take_reply_def Let_def
        answered_def next_reply_def no_reply_def split: list.splits)

lemma benign_answered [simp]: "benign w \<Longrightarrow> benign (answered ev w)"
  by (cases "replies w") (auto simp: benign_def answered_def)

lemma answered_fields [simp]:
  "calls (answered ev w) = calls w @ [ev]"
  "stdout (answered ev w) = stdout w"
  "files (answered ev w) = files w"
  "window (answered ev w) = window w"
  "ffmpeg_path (answered ev w) = ffmpeg_path w"
  "interrupt_in (answered ev w) = interrupt_in w"
  by (simp_all add: answered_def)

lemma benign_upd [simp]:
  "benign (w\<lparr>stdout := s\<rparr>) = benign w"
  "benign (w\<lparr>files := f\<rparr>) = benign w"
  "benign (w\<lparr>window := x\<rparr>) = benign w"
  by (simp_all add: benign_def)

lemma capture_all_no_tick:
  "n \<le> 0 \<Longrightarrow>
   capture_all a n d w =
     (w\<lparr>stdout := stdout w @ [CHR 0x0A # tick_mark @ '' Finished capturing '' @ str_int n
                                @ '' screenshots in ~'' @ str_timedelta w 0]\<rparr>, Inr ())"
  by (simp add: capture_all_def bind_def now_def seq_apply ret_def py_print_def modify_def)

subsection \<open>Names of files\<close>

lemma digit_val_digit_char: "d < 10 \<Longrightarrow> digit_val (digit_char d) = d"
proof -
  assume "d < 10"
  then have "d = 0 \<or> d = 1 \<or> d = 2 \<or> d = 3 \<or> d = 4 \<or> d = 5 \<or> d = 6 \<or> d = 7 \<or> d = 8 \<or> d = 9"
    by arith
  then show ?thesis by (auto simp: digit_val_def digit_char_def)
qed

lemma parse_nat_snoc: "parse_nat (s @ [c]) = 10 * parse_nat s + digit_val c"
  by (simp add: parse_nat_def)

lemma parse_nat_str_nat: "parse_nat (str_nat n) = n"
proof (induction n rule: str_nat.induct)
  case (1 n)
  show ?case
  proof (cases "n < 10")
    case True
    then show ?thesis
      by (subst str_nat.simps) (simp add: parse_nat_def digit_val_digit_char)
  next
    case False
    with 1 have "parse_nat (str_nat (n div 10)) = n div 10" by simp
    with False show ?thesis
      by (subst str_nat.simps) (simp add: parse_nat_snoc digit_val_digit_char)
  qed
qed

lemma parse_nat_zeros: "parse_nat (replicate k (CHR ''0'') @ s) = parse_nat s"
proof -
  have "foldl (\<lambda>acc ch. 10 * acc + digit_val ch) 0 (replicate k (CHR ''0'')) = 0"
    by (induction k) (simp_all add: digit_val_def)
  then show ?thesis by (simp add: parse_nat_def)
qed

lemma parse_nat_fmt_06d: "parse_nat (fmt_06d i) = i"
  by (simp add: fmt_06d_def parse_nat_zeros parse_nat_str_nat)

lemma fmt_06d_inj: "fmt_06d i = fmt_06d j \<Longrightarrow> i = j"
  by (metis parse_nat_fmt_06d)

lemma path_join_relative:
  "n \<noteq> [] \<Longrightarrow> hd n \<noteq> CHR ''/'' \<Longrightarrow> path_join folder n = dir_prefix folder @ n"
  by (simp add: path_join_def dir_prefix_def)

lemma temp_path_eq: "temp_path folder i = dir_prefix folder @ ''temp_'' @ fmt_06d i @ ''.png''"
  by (simp add: temp_path_def path_join_relative)

lemma temp_path_inj:
  assumes "temp_path folder i = temp_path folder j"
  shows "i = j"
proof -
  from assms have "fmt_06d i = fmt_06d j" by (simp add: temp_path_eq)
  then show ?thesis by (rule fmt_06d_inj)
qed

lemma digit_char_not_sep: "digit_char d \<noteq> CHR ''_''"
  by (simp add: digit_char_def)

lemma str_nat_no_sep: "CHR ''_'' \<notin> set (str_nat n)"
proof (induction n rule: str_nat.induct)
  case (1 n)
  show ?case
  proof (cases "n < 10")
    case True
    then show ?thesis by (subst str_nat.simps) (simp add: digit_char_not_sep [symmetric])
  next
    case False
    with 1 have "CHR ''_'' \<notin> set (str_nat (n div 10))" by simp
    with False show ?thesis by (subst str_nat.simps) (simp add: digit_char_not_sep [symmetric])
  qed
qed

lemma fmt_06d_no_sep: "CHR ''_'' \<notin> set (fmt_06d i)"
  by (simp add: fmt_06d_def str_nat_no_sep)

lemma split_at_sep:
  "a \<notin> set xs \<Longrightarrow> a \<notin> set ys \<Longrightarrow> xs @ a # r = ys @ a # s \<Longrightarrow> xs = ys"
proof (induction xs arbitrary: ys)
  case Nil
  then show ?case by (cases ys) auto
next
  case (Cons x xs)
  then show ?case by (cases ys) auto
qed

lemma frame_name_inj:
  assumes "frame_name i t = frame_name j u"
  shows "i = j"
proof -
  from assms have "fmt_06d i @ CHR ''_'' # (t @ ''.png'') = fmt_06d j @ CHR ''_'' # (u @ ''.png'')"
    by (simp add: frame_name_def)
  then have "fmt_06d i = fmt_06d j"
    by (rule split_at_sep [OF fmt_06d_no_sep fmt_06d_no_sep])
  then show ?thesis by (rule fmt_06d_inj)
qed

lemma glob_frames_subset: "set (glob_frames folder fs) \<subseteq> fst ` set fs"
  by (auto simp: glob_frames_def)

lemma temp_name_not_frame: "\<not> is_frame_name (''temp_'' @ x)"
  by (simp add: is_frame_name_def)

lemma temp_path_not_frame: "temp_path folder i \<notin> set (glob_frames folder fs)"
proof
  assume "temp_path folder i \<in> set (glob_frames folder fs)"
  then have "is_frame_name (drop (length (dir_prefix folder)) (temp_path folder i))"
    by (simp add: glob_frames_def)
  then have "is_frame_name (''temp_'' @ fmt_06d i @ ''.png'')"
    by (simp add: temp_path_eq)
  then show False by (rule notE [OF temp_name_not_frame])
qed

lemma distinct_glob_frames: "distinct (map fst fs) \<Longrightarrow> distinct (glob_frames folder fs)"
  by (simp add: glob_frames_def)

subsection \<open>The assembly in a world that answers every call\<close>

lemma map_fst_rename_file:
  "src \<noteq> dst \<Longrightarrow>
     map fst (rename_file src dst fs)
       = map (\<lambda>p. if p = src then dst else p) (filter (\<lambda>p. p \<noteq> dst) (map fst fs))"
  by (induction fs) (auto simp: rename_file_def)

lemma keys_rename_file:
  assumes "src \<in> fst ` set fs" and "src \<noteq> dst"
  shows "fst ` set (rename_file src dst fs) = insert dst (fst ` set fs - {src})"
proof -
  have "fst ` set (rename_file src dst fs) = set (map fst (rename_file src dst fs))" by simp
  also have "\<dots> = (\<lambda>p. if p = src then dst else p) ` (fst ` set fs - {dst})"
    unfolding map_fst_rename_file [OF assms(2)] by auto
  also have "\<dots> = insert dst (fst ` set fs - {src})"
    using assms by auto
  finally show ?thesis .
qed

lemma map_fst_write_file:
  "map fst (write_file p m fs) = (if p \<in> fst ` set fs then map fst fs else map fst fs @ [p])"
  by (induction fs) (auto simp: write_file_def)

lemma keys_write_file: "fst ` set (write_file p m fs) = insert p (fst ` set fs)"
proof -
  have "fst ` set (write_file p m fs) = set (map fst (write_file p m fs))" by simp
  also have "\<dots> = insert p (fst ` set fs)"
    unfolding map_fst_write_file by auto
  finally show ?thesis .
qed

lemma answered_more [simp]:
  "replies (answered ev w) = tl (replies w)"
  "paths (answered ev w) = paths w"
  by (simp_all add: answered_def paths_def)

lemma os_rename_benign:
  assumes "benign w" and "src \<in> paths w"
  shows "os_rename src dst w
           = ((answered (Rename src dst) w)\<lparr>files := rename_file src dst (files w)\<rparr>, Inr ())"
  using assms by (simp add: os_rename_def seq_apply ext_call_benign paths_def)

lemma upt_add_Suc: "[i..<Suc (i + k)] = i # [Suc i..<Suc (i + k)]"
  by (simp add: upt_conv_Cons del: upt_Suc)

lemma rename_to_temp_benign:
  assumes "benign w" and "distinct ps" and "set ps \<subseteq> paths w"
    and "\<And>j. temp_path folder j \<notin> set ps"
  shows "\<exists>w1. rename_to_temp folder i ps w
                 = (w1, Inr (zip ps (map (temp_path folder) [i..<i + length ps])))
            \<and> benign w1
            \<and> paths w1 = (paths w - set ps) \<union> temp_path folder ` {i..<i + length ps}
            \<and> calls w1 = calls w @ map (\<lambda>(p, t). Rename p t)
                                       (zip ps (map (temp_path folder) [i..<i + length ps]))
            \<and> replies w1 = drop (length ps) (replies w)
            \<and> stdout w1 = stdout w"
  using assms
proof (induction ps arbitrary: i w)
  case Nil
  then show ?case by (simp add: ret_def)
next
  case (Cons p ps)
  let ?t = "temp_path folder i"
  let ?w = "(answered (Rename p ?t) w)\<lparr>files := rename_file p ?t (files w)\<rparr>"
  have pin: "p \<in> paths w" using Cons.prems(3) by simp
  have pt: "p \<noteq> ?t" using Cons.prems(4) [of i] by auto
  have r: "os_rename p ?t w = (?w, Inr ())"
    by (rule os_rename_benign [OF Cons.prems(1) pin])
  have b: "benign ?w" using Cons.prems(1) by simp
  have pw: "paths ?w = insert ?t (paths w - {p})"
    using keys_rename_file [of p "files w" ?t] pin pt by (simp add: paths_def)
  have sub: "set ps \<subseteq> paths ?w" using Cons.prems(2,3) pw by auto
  have d: "distinct ps" using Cons.prems(2) by simp
  have "\<exists>w1. rename_to_temp folder (Suc i) ps ?w
                 = (w1, Inr (zip ps (map (temp_path folder) [Suc i..<Suc i + length ps])))
            \<and> benign w1
            \<and> paths w1 = (paths ?w - set ps) \<union> temp_path folder ` {Suc i..<Suc i + length ps}
            \<and> calls w1 = calls ?w @ map (\<lambda>(p, t). Rename p t)
                                       (zip ps (map (temp_path folder) [Suc i..<Suc i + length ps]))
            \<and> replies w1 = drop (length ps) (replies ?w)
            \<and> stdout w1 = stdout ?w"
    using Cons.prems(4) by (intro Cons.IH [OF b d sub]) auto
  then obtain w1 where rt: "rename_to_temp folder (Suc i) ps ?w
                 = (w1, Inr (zip ps (map (temp_path folder) [Suc i..<Suc i + length ps])))"
    and b1: "benign w1"
    and p1: "paths w1 = (paths ?w - set ps) \<union> temp_path folder ` {Suc i..<Suc i + length ps}"
    and c1: "calls w1 = calls ?w @ map (\<lambda>(p, t). Rename p t)
                                       (zip ps (map (temp_path folder) [Suc i..<Suc i + length ps]))"
    and r1: "replies w1 = drop (length ps) (replies ?w)"
    and s1: "stdout w1 = stdout ?w" by blast
  have tn: "?t \<notin> set ps" using Cons.prems(4) [of i] by auto
  have "rename_to_temp folder i (p # ps) w
          = (w1, Inr (zip (p # ps) (map (temp_path folder) [i..<i + length (p # ps)])))"
    using r rt by (simp add: Let_def seq_apply bind_def ret_def upt_add_Suc del: upt_Suc)
  moreover have "paths w1 = (paths w - set (p # ps)) \<union> temp_path folder ` {i..<i + length (p # ps)}"
  proof -
    have "{i..<i + length (p # ps)} = insert i {Suc i..<Suc i + length ps}" by auto
    then show ?thesis using p1 pw tn by auto
  qed
  moreover have "calls w1 = calls w @ map (\<lambda>(p, t). Rename p t)
                          (zip (p # ps) (map (temp_path folder) [i..<i + length (p # ps)]))"
    using c1 by (simp add: upt_add_Suc del: upt_Suc)
  moreover have "replies w1 = drop (length (p # ps)) (replies w)"
    using r1 by (simp add: drop_Suc drop_tl)
  moreover have "stdout w1 = stdout w" using s1 by simp
  ultimately show ?case using b1 by blast
qed

lemma restore_benign:
  assumes "length ps = length ts" and "benign w" and "distinct ts" and "set ts \<subseteq> paths w"
    and "set ps \<inter> set ts = {}"
  shows "\<exists>w1. restore (zip ps ts) w = (w1, Inr ()) \<and> benign w1
            \<and> paths w1 = (paths w - set ts) \<union> set ps
            \<and> stdout w1 = stdout w"
  using assms
proof (induction ps ts arbitrary: w rule: list_induct2)
  case Nil
  then show ?case by (simp add: ret_def)
next
  case (Cons p ps t ts)
  let ?w = "(answered (Rename t p) w)\<lparr>files := rename_file t p (files w)\<rparr>"
  have tin: "t \<in> paths w" using Cons.prems(3) by simp
  have tp: "t \<noteq> p" using Cons.prems(4) by auto
  have r: "os_rename t p w = (?w, Inr ())"
    by (rule os_rename_benign [OF Cons.prems(1) tin])
  have b: "benign ?w" using Cons.prems(1) by simp
  have pw: "paths ?w = insert p (paths w - {t})"
    using keys_rename_file [of t "files w" p] tin tp by (simp add: paths_def)
  have d: "distinct ts" using Cons.prems(2) by simp
  have sub: "set ts \<subseteq> paths ?w" using Cons.prems(2,3) pw by auto
  have dj: "set ps \<inter> set ts = {}" using Cons.prems(4) by auto
  from Cons.IH [OF b d sub dj]
  obtain w1 where rs: "restore (zip ps ts) ?w = (w1, Inr ())" and b1: "benign w1"
    and p1: "paths w1 = (paths ?w - set ts) \<union> set ps"
    and s1: "stdout w1 = stdout ?w" by blast
  have "restore (zip (p # ps) (t # ts)) w = (w1, Inr ())"
    using r rs by (simp add: seq_apply except_pass_def)
  moreover have "paths w1 = (paths w - set (t # ts)) \<union> set (p # ps)"
    using p1 pw Cons.prems(4) by auto
  moreover have "stdout w1 = stdout w" using s1 by simp
  ultimately show ?case using b1 by blast
qed

lemma last_ffmpeg_cmd: "last (ffmpeg_cmd folder fps video_name width) = path_join folder video_name"
  by (simp add: ffmpeg_cmd_def)

lemma subprocess_run_benign:
  assumes "benign w"
  shows "\<exists>w1. subprocess_run cmd w = (w1, Inr (next_reply w)) \<and> benign w1
            \<and> paths w1 = paths w \<union> (if retval (next_reply w) = 0 then {last cmd} else {})
            \<and> stdout w1 = stdout w
            \<and> calls w1 = calls w @ [Run cmd]"
  using assms
  by (auto simp: subprocess_run_def bind_def ext_call_benign seq_apply modify_def ret_def
        paths_def keys_write_file)

lemma sort_by_mtime_glob:
  "sort_by_mtime fs (glob_frames folder fs)
     = Inr (sort_key (\<lambda>p. the (map_of fs p)) (glob_frames folder fs))"
proof -
  have "list_all (\<lambda>p. map_of fs p \<noteq> None) (glob_frames folder fs)"
    using glob_frames_subset [of folder fs]
    by (auto simp: list_all_iff map_of_eq_None_iff)
  then show ?thesis by (simp add: sort_by_mtime_def)
qed

lemma next_reply_drop: "replies w1 = drop k (replies w) \<Longrightarrow> next_reply w1 = nth_reply w k"
  by (cases "drop k (replies w)")
     (auto simp: next_reply_def nth_reply_def hd_drop_conv_nth [symmetric] dest: arg_cong [where f = hd])

lemma distinct_temp_paths: "distinct (map (temp_path folder) [i..<j])"
  by (auto simp: distinct_map inj_on_def dest: temp_path_inj)

lemma maybe_build_video_benign:
  assumes b: "benign w" and f: "ffmpeg_path w \<noteq> None" and d: "distinct (map fst (files w))"
    and n: "glob_frames folder (files w) \<noteq> []"
  defines "S \<equiv> sort_key (\<lambda>p. the (map_of (files w) p)) (glob_frames folder (files w))"
  defines "T \<equiv> map (temp_path folder) [0..<length (glob_frames folder (files w))]"
  defines "r \<equiv> nth_reply w (length (glob_frames folder (files w)))"
  shows "\<exists>w4. maybe_build_video folder fps video_name width w = (w4, Inr (retval r = 0))
           \<and> paths w4 = (paths w \<union> (if retval r = 0 then {path_join folder video_name} else {}))
                          - set T
           \<and> calls w4 = calls w @ map (\<lambda>(p, t). Rename p t) (zip S T)
                          @ [Run (ffmpeg_cmd folder fps video_name width)]
                          @ map (\<lambda>(p, t). Rename t p) (zip S T)
           \<and> stdout w4 = stdout w @ [''[*] Building video with ffmpeg...'',
                 if retval r = 0 then tick_mark @ '' Video saved to: '' @ path_join folder video_name
                 else ''[!] ffmpeg failed. Output:'' @ [CHR 0x0A] @ '' '' @ stderr_text r]"
proof -
  let ?cmd = "ffmpeg_cmd folder fps video_name width"
  have lS: "length S = length (glob_frames folder (files w))" by (simp add: S_def)
  have Sn: "S \<noteq> []" using n lS by auto
  have dS: "distinct S" using distinct_glob_frames [OF d] by (simp add: S_def)
  have sS: "set S \<subseteq> paths w" using glob_frames_subset [of folder "files w"] by (simp add: S_def paths_def)
  have tS: "\<And>j. temp_path folder j \<notin> set S" using temp_path_not_frame by (simp add: S_def)
  have T0: "T = map (temp_path folder) [0..<0 + length S]" by (simp add: T_def lS)
  have sT: "set T = temp_path folder ` {0..<0 + length S}" by (simp add: T0)
  from rename_to_temp_benign [OF b dS sS tS, where i = 0]
  obtain w1 where rt: "rename_to_temp folder 0 S w = (w1, Inr (zip S T))"
    and b1: "benign w1" and p1: "paths w1 = (paths w - set S) \<union> set T"
    and c1: "calls w1 = calls w @ map (\<lambda>(p, t). Rename p t) (zip S T)"
    and r1: "replies w1 = drop (length S) (replies w)"
    and s1: "stdout w1 = stdout w"
    unfolding T0 [symmetric] sT [symmetric] by blast
  define w1' where "w1' = w1\<lparr>stdout := stdout w1 @ [''[*] Building video with ffmpeg...'']\<rparr>"
  have b1': "benign w1'" using b1 by (simp add: w1'_def)
  have pr: "py_print ''[*] Building video with ffmpeg...'' w1 = (w1', Inr ())"
    by (simp add: py_print_def modify_def w1'_def)
  have nr: "next_reply w1' = r"
    using next_reply_drop [of w1' "length S" w] r1 by (simp add: w1'_def r_def lS)
  from subprocess_run_benign [OF b1', of ?cmd]
  obtain w2 where sr: "subprocess_run ?cmd w1' = (w2, Inr r)" and b2: "benign w2"
    and p2: "paths w2 = paths w1' \<union> (if retval r = 0 then {path_join folder video_name} else {})"
    and s2: "stdout w2 = stdout w1'" and c2: "calls w2 = calls w1' @ [Run ?cmd]"
    unfolding nr last_ffmpeg_cmd by blast
  have lT: "length S = length T" by (simp add: T_def lS)
  have dT: "distinct T" unfolding T_def by (rule distinct_temp_paths)
  have sT2: "set T \<subseteq> paths w2" using p2 p1 by (auto simp: w1'_def paths_def)
  have dj: "set S \<inter> set T = {}" using tS by (auto simp: T_def)
  from restore_benign [OF lT b2 dT sT2 dj]
  obtain w3 where rs: "restore (zip S T) w2 = (w3, Inr ())" and b3: "benign w3"
    and p3: "paths w3 = (paths w2 - set T) \<union> set S" and s3: "stdout w3 = stdout w2" by blast
  have c3: "calls w3 = calls w2 @ map (\<lambda>(p, t). Rename t p) (zip S T)"
    using restore_calls [of "zip S T" w2] rs by simp
  define line where "line = (if retval r = 0
      then tick_mark @ '' Video saved to: '' @ path_join folder video_name
      else ''[!] ffmpeg failed. Output:'' @ [CHR 0x0A] @ '' '' @ stderr_text r)"
  define w4 where "w4 = w3\<lparr>stdout := stdout w3 @ [line]\<rparr>"
  have fin: "(if retval r = 0
                      then seq (py_print (tick_mark @ '' Video saved to: ''
                                          @ path_join folder video_name))
                               (ret True)
                      else seq (py_print (''[!] ffmpeg failed. Output:'' @ [CHR 0x0A] @ '' ''
                                          @ stderr_text r))
                               (ret False)) w3 = (w4, Inr (retval r = 0))"
    by (simp add: seq_apply py_print_def modify_def ret_def w4_def line_def)
  have m: "maybe_build_video folder fps video_name width w = (w4, Inr (retval r = 0))"
    using f Sn
    by (auto simp: maybe_build_video_def sort_by_mtime_glob S_def [symmetric] bind_def rt seq_apply pr sr
        rs fin)
  have p4: "paths w4 = (paths w \<union> (if retval r = 0 then {path_join folder video_name} else {})) - set T"
  proof -
    have "paths w4 = paths w3" by (simp add: w4_def paths_def)
    moreover have "paths w1' = paths w1" by (simp add: w1'_def paths_def)
    ultimately show ?thesis using p3 p2 p1 sS dj by auto
  qed
  have c4: "calls w4 = calls w @ map (\<lambda>(p, t). Rename p t) (zip S T) @ [Run ?cmd]
                @ map (\<lambda>(p, t). Rename t p) (zip S T)"
    using c3 c2 c1 by (simp add: w4_def w1'_def)
  have s4: "stdout w4 = stdout w @ [''[*] Building video with ffmpeg...'', line]"
    using s3 s2 s1 by (simp add: w4_def w1'_def)
  show ?thesis using m p4 c4 s4 unfolding line_def by blast
qed

lemma sorted_nth_strict:
  "sorted (map f xs) \<Longrightarrow> i < length xs \<Longrightarrow> j < length xs \<Longrightarrow> f (xs ! i) < f (xs ! j) \<Longrightarrow> i < j"
proof (rule ccontr)
  assume s: "sorted (map f xs)" and i: "i < length xs" and j: "j < length xs"
    and lt: "f (xs ! i) < f (xs ! j)" and "\<not> i < j"
  then have "j \<le> i" by simp
  with s i have "map f xs ! j \<le> map f xs ! i" by (intro sorted_nth_mono) auto
  with i j lt show False by simp
qed


subsection \<open>The loop inside the program\<close>

text \<open>
  The \<open>try\<close> body of \<open>main\<close> after \<open>new_driver\<close>: with no Ctrl-C pending it runs the
  loop over \<open>range(nshots)\<close> to its end and prints the closing line.
\<close>

lemma capture_all_runs:
  assumes "interrupt_in w = None"
  shows "\<exists>w1 los dur. capture_all a n d w = (w1, Inr ()) \<and> interrupt_in w1 = None
           \<and> length los = nat n
           \<and> (\<forall>out \<in> set (map snd los). out = ''done.'' \<or> (\<exists>e. out = ''error: '' @ e))
           \<and> stdout w1 = stdout w
                @ concat (map (\<lambda>(i, t, out). [capturing_line i n (frame_name i t), out])
                            (zip [0..<nat n] los))
                @ [CHR 0x0A # tick_mark @ '' Finished capturing '' @ str_int n
                   @ '' screenshots in ~'' @ dur]
           \<and> length (filter (\<lambda>e. e = Get (arg_url a)) (calls w1))
               = length (filter (\<lambda>e. e = Get (arg_url a)) (calls w)) + nat n"
proof -
  from loop_runs [OF assms, of "[0..<nat n]" a n d]
  obtain w2 los where l: "for_each [0..<nat n] (shot a n d) w = (w2, Inr ())"
    and i2: "interrupt_in w2 = None"
    and n2: "length los = nat n"
    and d2: "\<forall>out \<in> set (map snd los). out = ''done.'' \<or> (\<exists>e. out = ''error: '' @ e)"
    and o2: "stdout w2 = stdout w
                @ concat (map (\<lambda>(i, t, out). [capturing_line i n (frame_name i t), out])
                            (zip [0..<nat n] los))"
    and g2: "length (filter (\<lambda>e. e = Get (arg_url a)) (calls w2))
               = length (filter (\<lambda>e. e = Get (arg_url a)) (calls w)) + nat n" by auto
  define dur where "dur = str_timedelta w2 (clock w2 - clock w)"
  define w1 where "w1 = w2\<lparr>stdout := stdout w2 @ [CHR 0x0A # tick_mark @ '' Finished capturing ''
                      @ str_int n @ '' screenshots in ~'' @ dur]\<rparr>"
  have c: "capture_all a n d w = (w1, Inr ())"
    using l by (simp add: capture_all_def bind_def now_def seq_apply py_print_def modify_def
        w1_def dur_def)
  have "interrupt_in w1 = None" using i2 by (simp add: w1_def)
  moreover have "stdout w1 = stdout w
                @ concat (map (\<lambda>(i, t, out). [capturing_line i n (frame_name i t), out])
                            (zip [0..<nat n] los))
                @ [CHR 0x0A # tick_mark @ '' Finished capturing '' @ str_int n
                   @ '' screenshots in ~'' @ dur]"
    using o2 by (simp add: w1_def)
  moreover have "length (filter (\<lambda>e. e = Get (arg_url a)) (calls w1))
               = length (filter (\<lambda>e. e = Get (arg_url a)) (calls w)) + nat n"
    using g2 by (simp add: w1_def)
  ultimately show ?thesis using c n2 d2 by blast
qed

lemma calm_preamble: "calm (preamble a)"
  unfolding preamble_def ensure_out_dir_def count_shots_def
  by (intro calm_intros)
     (auto simp: calm_def py_print_def modify_def ret_def raise_def is_error_def split: option.splits)

lemma calm_new_driver: "calm (new_driver wd ht)"
  unfolding new_driver_def
  by (intro calm_intros calm_modify) auto

lemma keeps_get_preamble:
  "keeps (\<lambda>w. filter (\<lambda>e. e = Get u) (calls w)) (preamble a)"
  unfolding preamble_def ensure_out_dir_def count_shots_def
  by (intro keeps_intros)
     (auto simp: keeps_def py_print_def modify_def ret_def raise_def split: option.splits)

lemma keeps_get_new_driver:
  "keeps (\<lambda>w. filter (\<lambda>e. e = Get u) (calls w)) (new_driver wd ht)"
  unfolding new_driver_def
  by (intro keeps_intros keeps_modify) auto

lemma keeps_stdout_new_driver: "keeps stdout (new_driver wd ht)"
  unfolding new_driver_def
  by (intro keeps_intros keeps_modify) auto

lemma finally_quit_stdout: "stdout (fst (finally_quit (Some d) res)) = stdout (fst res)"
  using ext_call_stdout [of Quit "fst res"]
  by (cases "ext_call Quit (fst res)")
     (auto simp: finally_quit_def driver_quit_def seq_apply ret_def split: sum.splits)

lemma entry_calls: "calls (fst (entry a w)) = calls (fst (main a w))"
  by (cases "main a w")
     (auto simp: entry_def seq_apply py_print_def modify_def raise_def
      split: sum.splits exn.splits)

lemma entry_runs_every_tick:
  assumes i: "interrupt_in w = None"
    and p: "preamble a w = (w0, Inr n)"
    and d: "new_driver (arg_width a) (arg_height a) w0 = (w1, Inr drv)"
  shows "session a n w0 = finally_quit (Some drv) (capture_all a n drv w1)
     \<and> interrupt_in w1 = None
     \<and> length (filter (\<lambda>e. e = Get (arg_url a)) (calls (fst (entry a w))))
         = length (filter (\<lambda>e. e = Get (arg_url a)) (calls w)) + nat n"
proof -
  let ?G = "\<lambda>w. filter (\<lambda>e. e = Get (arg_url a)) (calls w)"
  let ?v = "seq (maybe_build_video (arg_out a) (arg_fps a) (arg_video a) (arg_width a)) (ret ())"
  have i0: "interrupt_in w0 = None" using calmD [OF calm_preamble i p] by simp
  have i1: "interrupt_in w1 = None" using calmD [OF calm_new_driver i0 d] by simp
  have s: "session a n w0 = finally_quit (Some drv) (capture_all a n drv w1)"
    using d by (simp add: session_def)
  have g0: "?G w0 = ?G w" using keepsD [OF keeps_get_preamble, of "arg_url a" a w] p by simp
  have g1: "?G w1 = ?G w0"
    using keepsD [OF keeps_get_new_driver, of "arg_url a" "arg_width a" "arg_height a" w0] d by simp
  from capture_all_runs [OF i1, of a n drv]
  have gc: "length (?G (fst (capture_all a n drv w1))) = length (?G w1) + nat n" by auto
  have gs: "?G (fst (session a n w0)) = ?G (fst (capture_all a n drv w1))"
    by (simp add: s finally_quit_calls)
  have v: "keeps ?G ?v" by (intro keeps_intros) auto
  have m: "main a w = seq (session a n) ?v w0" using p by (simp add: main_def bind_def)
  have "?G (fst (main a w)) = ?G (fst (session a n w0))"
    unfolding m by (rule keeps_seq_fst [OF v])
  then show ?thesis using s i1 gs gc g1 g0 by (simp add: entry_calls)
qed

section \<open>The claims\<close>

text \<open>
  C1. For a session of \<open>n\<close> ticks the loop of \<open>main\<close> runs every tick, whatever the
  captures do. Take a run of the program with no Ctrl-C pending in which the statements
  before the \<open>try\<close> return the number of shots \<open>n\<close> and \<open>new_driver\<close> returns the
  driver. Then the \<open>try\<close> statement of \<open>main\<close> is the loop followed by \<open>driver.quit()\<close>;
  the loop returns normally; the whole run navigates to the page exactly \<open>n\<close> times;
  and what the \<open>try\<close> statement prints is, for the indices \<open>0, ..., n - 1\<close> in order,
  the progress line of the tick, whose file name \<open>screenshot_{i:06d}_{timestamp}.png\<close>
  carries the index \<open>i\<close>, followed by the outcome of its capture: \<open>done.\<close>, or
  \<open>error: \<close> and the message of the exception that was caught; then the closing line
  with the count \<open>n\<close>. A file name determines its index: two ticks never share a file
  name.
\<close>

theorem every_tick_runs:
  assumes "interrupt_in w = None"
    and "preamble a w = (w0, Inr n)"
    and "new_driver (arg_width a) (arg_height a) w0 = (w1, Inr d)"
  shows "\<exists>ts outs dur. length ts = nat n \<and> length outs = nat n
           \<and> (\<forall>out \<in> set outs. out = ''done.'' \<or> (\<exists>e. out = ''error: '' @ e))
           \<and> session a n w0 = finally_quit (Some d) (capture_all a n d w1)
           \<and> snd (capture_all a n d w1) = Inr ()
           \<and> stdout (fst (session a n w0))
               = stdout w0
                 @ concat (map (\<lambda>i. [capturing_line i n (frame_name i (ts ! i)), outs ! i])
                             [0..<nat n])
                 @ [CHR 0x0A # tick_mark @ '' Finished capturing '' @ str_int n
                    @ '' screenshots in ~'' @ dur]
           \<and> length (filter (\<lambda>e. e = Get (arg_url a)) (calls (fst (entry a w))))
               = length (filter (\<lambda>e. e = Get (arg_url a)) (calls w)) + nat n
           \<and> (\<forall>i j t u. frame_name i t = frame_name j u \<longrightarrow> i = j)"
proof -
  from entry_runs_every_tick [OF assms]
  have s: "session a n w0 = finally_quit (Some d) (capture_all a n d w1)"
    and i1: "interrupt_in w1 = None"
    and g: "length (filter (\<lambda>e. e = Get (arg_url a)) (calls (fst (entry a w))))
              = length (filter (\<lambda>e. e = Get (arg_url a)) (calls w)) + nat n"
    by auto
  from capture_all_runs [OF i1, of a n d]
  obtain w2 los dur where c: "capture_all a n d w1 = (w2, Inr ())"
    and n2: "length los = nat n"
    and d2: "\<forall>out \<in> set (map snd los). out = ''done.'' \<or> (\<exists>e. out = ''error: '' @ e)"
    and o2: "stdout w2 = stdout w1
                @ concat (map (\<lambda>(i, t, out). [capturing_line i n (frame_name i t), out])
                            (zip [0..<nat n] los))
                @ [CHR 0x0A # tick_mark @ '' Finished capturing '' @ str_int n
                   @ '' screenshots in ~'' @ dur]"
    by auto
  have z: "map (\<lambda>(i, t, out). [capturing_line i n (frame_name i t), out]) (zip [0..<nat n] los)
         = map (\<lambda>i. [capturing_line i n (frame_name i (map fst los ! i)), map snd los ! i]) [0..<nat n]"
    using n2 by (simp add: zip_upt_nth case_prod_unfold)
  have k: "stdout w1 = stdout w0"
    using keepsD [OF keeps_stdout_new_driver, of "arg_width a" "arg_height a" w0] assms(3) by simp
  have o: "stdout (fst (session a n w0))
               = stdout w0
                 @ concat (map (\<lambda>i. [capturing_line i n (frame_name i (map fst los ! i)),
                                        map snd los ! i]) [0..<nat n])
                 @ [CHR 0x0A # tick_mark @ '' Finished capturing '' @ str_int n
                    @ '' screenshots in ~'' @ dur]"
    by (simp only: s finally_quit_stdout c fst_conv o2 z k)
  have inj: "\<forall>i j t u. frame_name i t = frame_name j u \<longrightarrow> i = j"
    using frame_name_inj by blast
  show ?thesis
    apply (rule exI [of _ "map fst los"])
    apply (rule exI [of _ "map snd los"])
    apply (rule exI [of _ dur])
    using s c n2 d2 o g inj by simp
qed

lemma flaky_preamble: "snd (preamble demo_args flaky_session_world) = Inr 3"
  by code_simp

lemma flaky_new_driver:
  "snd (new_driver (arg_width demo_args) (arg_height demo_args)
          (fst (preamble demo_args flaky_session_world))) = Inr Driver"
  by code_simp

lemma flaky_run:
  "drop 5 (stdout (fst (session demo_args 3 (fst (preamble demo_args flaky_session_world))))) =
     [''[*] [1/3] Capturing screenshot_000000_103.png ... '', ''done.'',
      ''[*] [2/3] Capturing screenshot_000001_113.png ... '',
      ''error: net::ERR_CONNECTION_REFUSED'',
      ''[*] [3/3] Capturing screenshot_000002_123.png ... '', ''done.'',
      CHR 0x0A # tick_mark @ '' Finished capturing 3 screenshots in ~29'']"
  by code_simp

theorem every_tick_runs_witness:
  "interrupt_in flaky_session_world = None
   \<and> snd (preamble demo_args flaky_session_world) = Inr 3
   \<and> snd (new_driver (arg_width demo_args) (arg_height demo_args)
             (fst (preamble demo_args flaky_session_world))) = Inr Driver
   \<and> length (filter (\<lambda>e. e = Get (arg_url demo_args))
               (calls (fst (entry demo_args flaky_session_world)))) = 3
   \<and> drop 5 (stdout (fst (session demo_args 3 (fst (preamble demo_args flaky_session_world))))) =
     [''[*] [1/3] Capturing screenshot_000000_103.png ... '', ''done.'',
      ''[*] [2/3] Capturing screenshot_000001_113.png ... '',
      ''error: net::ERR_CONNECTION_REFUSED'',
      ''[*] [3/3] Capturing screenshot_000002_123.png ... '', ''done.'',
      CHR 0x0A # tick_mark @ '' Finished capturing 3 screenshots in ~29'']"
proof -
  have i: "interrupt_in flaky_session_world = None"
    by (simp add: flaky_session_world_def demo_world_def)
  have c: "calls flaky_session_world = []"
    by (simp add: flaky_session_world_def demo_world_def)
  show ?thesis
    using every_tick_runs [OF i pairI [OF flaky_preamble] pairI [OF flaky_new_driver]]
      i c flaky_preamble flaky_new_driver flaky_run
    by auto
qed

text \<open>
  C2. Take a tick that starts at \<open>t0 = clock w\<close> with no Ctrl-C pending, and let \<open>w3\<close> be
  the world when its capture attempt is over. The attempt returns normally. If the tick
  is not the last one (\<open>i < nshots - 1\<close>), the tick ends with one more call,
  \<open>time.sleep(max(0, interval - elapsed))\<close> with \<open>elapsed = clock w3 - t0\<close>, after which
  the clock reads \<open>max(t0 + interval, clock w3)\<close>: the next tick starts \<open>interval\<close> after
  this one, or at once when the capture took that long or longer. The last tick ends
  where its capture attempt ends: no sleep.
\<close>

theorem cadence_sleep:
  assumes "interrupt_in w = None"
    and "capture_attempt a d (path_join (arg_out a) (frame_name i (strftime w (clock w))))
           (w\<lparr>stdout := stdout w @ [capturing_line i n (frame_name i (strftime w (clock w)))]\<rparr>)
         = (w3, r)"
  shows "r = Inr ()
     \<and> (int i < n - 1 \<longrightarrow>
          shot a n d i w =
            (w3\<lparr>calls := calls w3 @ [Sleep (max 0 (of_int (arg_interval a) - (clock w3 - clock w)))],
                clock := max (clock w + of_int (arg_interval a)) (clock w3)\<rparr>, Inr ()))
     \<and> (\<not> int i < n - 1 \<longrightarrow> shot a n d i w = (w3, Inr ()))"
proof -
  let ?w = "w\<lparr>stdout := stdout w @ [capturing_line i n (frame_name i (strftime w (clock w)))]\<rparr>"
  have "interrupt_in ?w = None" using assms(1) by simp
  from capture_attempt_returns [OF this, of a d "path_join (arg_out a) (frame_name i (strftime w (clock w)))"]
    assms(2)
  have r: "r = Inr ()" and i: "interrupt_in w3 = None" by auto
  have m: "clock w3 + max 0 (of_int (arg_interval a) - (clock w3 - clock w))
           = max (clock w + of_int (arg_interval a)) (clock w3)"
    by (simp add: max_def)
  show ?thesis
    using r i assms(2) m
    by (simp add: shot_apply seq_apply bind_def now_def ret_def sleep_apply)
qed

lemma slow_last_call:
  "last (calls (fst (capture_attempt demo_args Driver
     (path_join (arg_out demo_args) (frame_name 2 (strftime slow_world (clock slow_world))))
     (slow_world\<lparr>stdout := stdout slow_world
        @ [capturing_line 2 3 (frame_name 2 (strftime slow_world (clock slow_world)))]\<rparr>))))
     = SaveScreenshot ''out/screenshot_000002_100.png''"
  by code_simp

lemma demo_attempt_clock:
  "clock (fst (capture_attempt demo_args Driver
     (path_join (arg_out demo_args) (frame_name 0 (strftime flaky_world (clock flaky_world))))
     (flaky_world\<lparr>stdout := stdout flaky_world
        @ [capturing_line 0 3 (frame_name 0 (strftime flaky_world (clock flaky_world)))]\<rparr>))) = 219 / 2"
  by code_simp

lemma slow_attempt_clock:
  "clock (fst (capture_attempt demo_args Driver
     (path_join (arg_out demo_args) (frame_name 0 (strftime slow_world (clock slow_world))))
     (slow_world\<lparr>stdout := stdout slow_world
        @ [capturing_line 0 3 (frame_name 0 (strftime slow_world (clock slow_world)))]\<rparr>))) = 267 / 2"
  by code_simp

theorem cadence_sleep_witness:
  "interrupt_in flaky_world = None
   \<and> clock flaky_world = 100
   \<and> clock (fst (shot demo_args 3 Driver 0 flaky_world)) = 110
   \<and> last (calls (fst (shot demo_args 3 Driver 0 flaky_world))) = Sleep (1 / 2)
   \<and> interrupt_in slow_world = None
   \<and> clock slow_world = 100
   \<and> clock (fst (shot demo_args 3 Driver 0 slow_world)) = 267 / 2
   \<and> last (calls (fst (shot demo_args 3 Driver 0 slow_world))) = Sleep 0
   \<and> last (calls (fst (shot demo_args 3 Driver 2 slow_world))) = SaveScreenshot ''out/screenshot_000002_100.png''"
  using cadence_sleep [OF _ pairI [OF refl], of flaky_world demo_args Driver 0 3]
    cadence_sleep [OF _ pairI [OF refl], of slow_world demo_args Driver 0 3]
    cadence_sleep [OF _ pairI [OF refl], of slow_world demo_args Driver 2 3]
    demo_attempt_clock slow_attempt_clock slow_last_call
  by (simp add: flaky_world_def slow_world_def demo_world_def demo_args_def)

text \<open>
  C3. Take a run in which the browser session is acquired: the statements before the
  \<open>try\<close> of \<open>main\<close> return (\<open>nshots\<close>, leaving the world \<open>w0\<close>) and \<open>new_driver\<close>
  returns the driver. Then the whole run, \<open>__main__\<close> included, calls \<open>driver.quit()\<close>
  exactly once, whatever the loop does: it completes, an exception escapes it, or Ctrl-C
  interrupts it. The call is the last one of the \<open>try ... finally\<close> block, and the
  video assembly that follows makes no other.
\<close>

theorem quit_exactly_once:
  assumes "preamble a w = (w0, Inr nshots)"
    and "new_driver (arg_width a) (arg_height a) w0 = (w1, Inr driver)"
  shows "quits (fst (entry a w)) = quits w + 1
     \<and> quits (fst (session a nshots w0)) = quits w0 + 1
     \<and> last (calls (fst (session a nshots w0))) = Quit"
  using main_quits [OF assms] session_quits [OF assms(2), of nshots]
    session_calls [OF assms(2), of nshots]
  by (simp add: entry_quits)

lemma interrupted_preamble: "snd (preamble demo_args interrupted_world) = Inr 3"
  by code_simp

lemma interrupted_new_driver:
  "snd (new_driver (arg_width demo_args) (arg_height demo_args)
          (fst (preamble demo_args interrupted_world))) = Inr Driver"
  by code_simp

lemma interrupted_exit: "snd (entry demo_args interrupted_world) = Inl (SystemExit 1)"
  by code_simp

lemma interrupted_mid_loop:
  "stdout (fst (entry demo_args interrupted_world)) ! 5
     = ''[*] [1/3] Capturing screenshot_000000_100.png ... ''"
  by code_simp

lemma demo_preamble: "snd (preamble demo_args demo_world) = Inr 3"
  by code_simp

lemma demo_new_driver:
  "snd (new_driver (arg_width demo_args) (arg_height demo_args)
          (fst (preamble demo_args demo_world))) = Inr Driver"
  by code_simp

lemma demo_exit: "snd (entry demo_args demo_world) = Inr ()"
  by code_simp

theorem quit_exactly_once_witness:
  "snd (preamble demo_args interrupted_world) = Inr 3
   \<and> snd (new_driver (arg_width demo_args) (arg_height demo_args)
             (fst (preamble demo_args interrupted_world))) = Inr Driver
   \<and> snd (entry demo_args interrupted_world) = Inl (SystemExit 1)
   \<and> stdout (fst (entry demo_args interrupted_world)) ! 5
       = ''[*] [1/3] Capturing screenshot_000000_100.png ... ''
   \<and> quits (fst (entry demo_args interrupted_world)) = 1
   \<and> snd (entry demo_args demo_world) = Inr ()
   \<and> quits (fst (entry demo_args demo_world)) = 1"
  using quit_exactly_once [OF pairI [OF interrupted_preamble] pairI [OF interrupted_new_driver]]
    quit_exactly_once [OF pairI [OF demo_preamble] pairI [OF demo_new_driver]]
    interrupted_preamble interrupted_new_driver interrupted_exit interrupted_mid_loop demo_exit
  by (simp add: quits_def interrupted_world_def demo_world_def)

text \<open>
  C4. The order of encoding is the order of the modification times. In a world that
  answers every call, with ffmpeg installed, the first calls of the pipeline are the
  renames of \<open>temp_files\<close>, in its order; the temporary names of \<open>temp_files\<close> are
  \<open>temp_000000.png\<close>, \<open>temp_000001.png\<close>, ... in this order (dense ordinals from 0); its
  files are the frame files of the folder, sorted by modification time; and whenever the
  file at the ordinal \<open>i\<close> is older than the file at the ordinal \<open>j\<close>, \<open>i < j\<close>. The
  names of the files play no part: the sort key is the modification time alone.
\<close>

theorem ordinals_follow_mtime:
  assumes "benign w" and "ffmpeg_path w \<noteq> None" and "distinct (map fst (files w))"
  shows "take (length (glob_frames folder (files w)))
              (drop (length (calls w))
                    (calls (fst (maybe_build_video folder fps video_name width w))))
           = map (\<lambda>(file_path, temp_name). Rename file_path temp_name) (temp_files folder w)
     \<and> map snd (temp_files folder w)
           = map (temp_path folder) [0..<length (glob_frames folder (files w))]
     \<and> set (map fst (temp_files folder w)) = set (glob_frames folder (files w))
     \<and> sorted (map (\<lambda>p. the (map_of (files w) p)) (map fst (temp_files folder w)))
     \<and> (\<forall>i j. i < length (glob_frames folder (files w))
              \<and> j < length (glob_frames folder (files w))
              \<and> the (map_of (files w) (fst (temp_files folder w ! i)))
                  < the (map_of (files w) (fst (temp_files folder w ! j)))
            \<longrightarrow> i < j)"
proof -
  let ?ps = "glob_frames folder (files w)"
  let ?m = "\<lambda>p. the (map_of (files w) p)"
  let ?S = "sort_key ?m ?ps"
  let ?T = "map (temp_path folder) [0..<length ?ps]"
  have fs: "map fst (temp_files folder w) = ?S" and sn: "map snd (temp_files folder w) = ?T"
    by (simp_all add: temp_files_def)
  have c: "take (length ?ps) (drop (length (calls w))
                    (calls (fst (maybe_build_video folder fps video_name width w))))
           = map (\<lambda>(file_path, temp_name). Rename file_path temp_name) (temp_files folder w)"
  proof (cases "?ps = []")
    case True
    then show ?thesis by (simp add: temp_files_def)
  next
    case False
    from maybe_build_video_benign [OF assms False, of fps video_name width]
    obtain w4 where "maybe_build_video folder fps video_name width w
                       = (w4, Inr (retval (nth_reply w (length ?ps)) = 0))"
      and "calls w4 = calls w @ map (\<lambda>(p, t). Rename p t) (zip ?S ?T)
                          @ [Run (ffmpeg_cmd folder fps video_name width)]
                          @ map (\<lambda>(p, t). Rename t p) (zip ?S ?T)" by blast
    then show ?thesis by (simp add: temp_files_def)
  qed
  have st: "sorted (map ?m (map fst (temp_files folder w)))"
    unfolding fs by (rule sorted_sort_key)
  have ij: "\<forall>i j. i < length ?ps \<and> j < length ?ps
              \<and> ?m (fst (temp_files folder w ! i)) < ?m (fst (temp_files folder w ! j))
            \<longrightarrow> i < j"
  proof (intro allI impI)
    fix i j
    assume h: "i < length ?ps \<and> j < length ?ps
              \<and> ?m (fst (temp_files folder w ! i)) < ?m (fst (temp_files folder w ! j))"
    then have "fst (temp_files folder w ! i) = ?S ! i" "fst (temp_files folder w ! j) = ?S ! j"
      by (simp_all add: temp_files_def)
    with h have "?m (?S ! i) < ?m (?S ! j)" by simp
    with sorted_nth_strict [of ?m ?S i j] h show "i < j" by simp
  qed
  show ?thesis using c sn st ij fs by simp
qed

lemma three_frames_temp_files:
  "temp_files ''out'' three_frames_world =
     [(''out/screenshot_c.png'', ''out/temp_000000.png''),
      (''out/screenshot_a.png'', ''out/temp_000001.png''),
      (''out/screenshot_b.png'', ''out/temp_000002.png'')]"
  by code_simp

lemma three_frames_glob: "length (glob_frames ''out'' (files three_frames_world)) = 3"
  by code_simp

theorem ordinals_follow_mtime_witness:
  "benign three_frames_world \<and> ffmpeg_path three_frames_world \<noteq> None
   \<and> distinct (map fst (files three_frames_world))
   \<and> temp_files ''out'' three_frames_world =
     [(''out/screenshot_c.png'', ''out/temp_000000.png''),
      (''out/screenshot_a.png'', ''out/temp_000001.png''),
      (''out/screenshot_b.png'', ''out/temp_000002.png'')]
   \<and> take 3 (calls (fst (maybe_build_video ''out'' 12 ''timelapse.mp4'' 1280 three_frames_world)))
       = [Rename ''out/screenshot_c.png'' ''out/temp_000000.png'',
          Rename ''out/screenshot_a.png'' ''out/temp_000001.png'',
          Rename ''out/screenshot_b.png'' ''out/temp_000002.png'']"
  using ordinals_follow_mtime [of three_frames_world "''out''" 12 "''timelapse.mp4''" 1280]
    three_frames_temp_files three_frames_glob
  by (simp add: three_frames_world_def demo_world_def benign_def)







text \<open>
  C6. The claim: the encoder invocation scales each frame to the target width keeping the
  aspect ratio and pads the frame height to the nearest even value. The command the
  pipeline runs has the filter \<open>scale=W:-1,pad=W:W:0:0:black\<close>: it pads the height to the
  width \<open>W\<close>, not to the next even height. The command the diagnostic proposes when ffmpeg
  is missing, \<open>manual_command\<close>, has \<open>pad=W:ceil(ih/2)*2:0:0:black\<close>, which does. The
  theorem runs \<open>ffmpeg_cmd\<close> on the defaults of the command line.
\<close>

theorem ffmpeg_cmd_pads_height_to_width:
  "ffmpeg_cmd ''./captures'' 12 ''timelapse.mp4'' 1280 =
     [''ffmpeg'', ''-y'', ''-framerate'', ''12'', ''-pattern_type'', ''glob'',
      ''-i'', ''./captures/temp_*.png'',
      ''-vf'', ''scale=1280:-1,pad=1280:1280:0:0:black'',
      ''-c:v'', ''libx264'', ''-pix_fmt'', ''yuv420p'', ''./captures/timelapse.mp4'']"
  by code_simp

text \<open>
  C7, as stated: with the encoder unavailable the pipeline returns a "skipped" result
  distinct from the "failed" result of an encoder error or of the no-frames case. The
  function returns a bool, and it returns False in all three cases: without ffmpeg (two
  frames in the folder), with ffmpeg and no frame, and with ffmpeg exiting with status 1.
\<close>

theorem skipped_result_equals_failed_result:
  "snd (maybe_build_video ''out'' 12 ''timelapse.mp4'' 1280
          (demo_world\<lparr>ffmpeg_path := None, files := two_frames\<rparr>)) = Inr False
   \<and> snd (maybe_build_video ''out'' 12 ''timelapse.mp4'' 1280 demo_world) = Inr False
   \<and> snd (maybe_build_video ''out'' 12 ''timelapse.mp4'' 1280 encoder_fails_world) = Inr False"
  by code_simp

text \<open>
  C7, amended: with the encoder unavailable the pipeline makes no call at all (no rename:
  the files are untouched), prints three lines, the last of them the manual command, and
  returns False; with the encoder there and no frame file it prints the no-frames line,
  makes no call and returns False as well; and with the encoder there, a frame file and an
  exit status of ffmpeg other than 0 (every call answered) it returns False again. The
  outcomes differ in what is printed, not in what is returned.
\<close>

theorem encoder_unavailable_skips:
  "(ffmpeg_path w = None \<longrightarrow>
      maybe_build_video folder fps video_name width w =
        (w\<lparr>stdout := stdout w @
             [CHR 0x0A # ''[!] ffmpeg not found on PATH. Skipping video assembly.'',
              ''    You can install ffmpeg and run something like:'' @ [CHR 0x0A],
              manual_command folder fps video_name width]\<rparr>, Inr False))
   \<and> (ffmpeg_path w \<noteq> None \<and> glob_frames folder (files w) = [] \<longrightarrow>
      maybe_build_video folder fps video_name width w =
        (w\<lparr>stdout := stdout w @ [''[!] No screenshot files found to build video'']\<rparr>,
         Inr False))
   \<and> (ffmpeg_path w \<noteq> None \<and> glob_frames folder (files w) \<noteq> [] \<and> benign w
       \<and> distinct (map fst (files w))
       \<and> retval (nth_reply w (length (glob_frames folder (files w)))) \<noteq> 0 \<longrightarrow>
      snd (maybe_build_video folder fps video_name width w) = Inr False)"
proof -
  have "ffmpeg_path w = None \<longrightarrow>
      maybe_build_video folder fps video_name width w =
        (w\<lparr>stdout := stdout w @
             [CHR 0x0A # ''[!] ffmpeg not found on PATH. Skipping video assembly.'',
              ''    You can install ffmpeg and run something like:'' @ [CHR 0x0A],
              manual_command folder fps video_name width]\<rparr>, Inr False)"
    by (auto simp: maybe_build_video_def seq_apply py_print_def modify_def ret_def)
  moreover have "ffmpeg_path w \<noteq> None \<and> glob_frames folder (files w) = [] \<longrightarrow>
      maybe_build_video folder fps video_name width w =
        (w\<lparr>stdout := stdout w @ [''[!] No screenshot files found to build video'']\<rparr>,
         Inr False)"
    by (auto simp: maybe_build_video_def seq_apply py_print_def modify_def ret_def
        sort_by_mtime_def)
  moreover have "ffmpeg_path w \<noteq> None \<and> glob_frames folder (files w) \<noteq> [] \<and> benign w
       \<and> distinct (map fst (files w))
       \<and> retval (nth_reply w (length (glob_frames folder (files w)))) \<noteq> 0 \<longrightarrow>
      snd (maybe_build_video folder fps video_name width w) = Inr False"
  proof
    assume h: "ffmpeg_path w \<noteq> None \<and> glob_frames folder (files w) \<noteq> [] \<and> benign w
       \<and> distinct (map fst (files w))
       \<and> retval (nth_reply w (length (glob_frames folder (files w)))) \<noteq> 0"
    then have b: "benign w" and f: "ffmpeg_path w \<noteq> None" and d: "distinct (map fst (files w))"
      and n: "glob_frames folder (files w) \<noteq> []" by auto
    from maybe_build_video_benign [OF b f d n, of fps video_name width] h
    show "snd (maybe_build_video folder fps video_name width w) = Inr False" by auto
  qed
  ultimately show ?thesis by blast
qed

theorem encoder_unavailable_skips_witness:
  "ffmpeg_path (demo_world\<lparr>ffmpeg_path := None, files := two_frames\<rparr>) = None
   \<and> files (fst (maybe_build_video ''out'' 12 ''timelapse.mp4'' 1280
                   (demo_world\<lparr>ffmpeg_path := None, files := two_frames\<rparr>))) = two_frames
   \<and> calls (fst (maybe_build_video ''out'' 12 ''timelapse.mp4'' 1280
                   (demo_world\<lparr>ffmpeg_path := None, files := two_frames\<rparr>))) = []
   \<and> stdout (fst (maybe_build_video ''out'' 12 ''timelapse.mp4'' 1280
                   (demo_world\<lparr>ffmpeg_path := None, files := two_frames\<rparr>))) ! 2
       = manual_command ''out'' 12 ''timelapse.mp4'' 1280
   \<and> snd (maybe_build_video ''out'' 12 ''timelapse.mp4'' 1280
                   (demo_world\<lparr>ffmpeg_path := None, files := two_frames\<rparr>)) = Inr False
   \<and> ffmpeg_path demo_world \<noteq> None \<and> glob_frames ''out'' (files demo_world) = []
   \<and> calls (fst (maybe_build_video ''out'' 12 ''timelapse.mp4'' 1280 demo_world)) = []
   \<and> stdout (fst (maybe_build_video ''out'' 12 ''timelapse.mp4'' 1280 demo_world))
       = [''[!] No screenshot files found to build video'']
   \<and> snd (maybe_build_video ''out'' 12 ''timelapse.mp4'' 1280 demo_world) = Inr False
   \<and> ffmpeg_path encoder_fails_world \<noteq> None
   \<and> glob_frames ''out'' (files encoder_fails_world) \<noteq> []
   \<and> benign encoder_fails_world \<and> distinct (map fst (files encoder_fails_world))
   \<and> retval (nth_reply encoder_fails_world
                (length (glob_frames ''out'' (files encoder_fails_world)))) \<noteq> 0
   \<and> snd (maybe_build_video ''out'' 12 ''timelapse.mp4'' 1280 encoder_fails_world) = Inr False"
proof -
  have g: "glob_frames ''out'' (files demo_world) = []"
    by code_simp
  have h: "ffmpeg_path encoder_fails_world \<noteq> None
    \<and> glob_frames ''out'' (files encoder_fails_world) \<noteq> []
    \<and> benign encoder_fails_world \<and> distinct (map fst (files encoder_fails_world))
    \<and> retval (nth_reply encoder_fails_world
                (length (glob_frames ''out'' (files encoder_fails_world)))) \<noteq> 0"
    by code_simp
  show ?thesis
    using encoder_unavailable_skips
      [of "demo_world\<lparr>ffmpeg_path := None, files := two_frames\<rparr>" "''out''" 12
          "''timelapse.mp4''" 1280]
      encoder_unavailable_skips [of demo_world "''out''" 12 "''timelapse.mp4''" 1280]
      encoder_unavailable_skips [of encoder_fails_world "''out''" 12 "''timelapse.mp4''" 1280]
      g h
    by (simp add: demo_world_def)
qed

text \<open>
  C8, as stated: a rename back that fails is surfaced as a diagnostic. In the run below the
  first rename back raises; what the pipeline prints is what it prints when every rename
  succeeds, it returns True, and \<open>temp_000000.png\<close> stays where \<open>screenshot_a.png\<close> was.
\<close>

theorem restore_failure_is_silent:
  "stdout (fst (maybe_build_video ''out'' 12 ''timelapse.mp4'' 1280 restore_fault_world))
     = [''[*] Building video with ffmpeg...'',
        tick_mark @ '' Video saved to: out/timelapse.mp4'']
   \<and> stdout (fst (maybe_build_video ''out'' 12 ''timelapse.mp4'' 1280 restore_fault_world))
     = stdout (fst (maybe_build_video ''out'' 12 ''timelapse.mp4'' 1280
                     (restore_fault_world\<lparr>replies := []\<rparr>)))
   \<and> map fst (files (fst (maybe_build_video ''out'' 12 ''timelapse.mp4'' 1280
                           restore_fault_world)))
     = [''out/temp_000000.png'', ''out/screenshot_b.png'', ''out/timelapse.mp4'']
   \<and> snd (maybe_build_video ''out'' 12 ''timelapse.mp4'' 1280 restore_fault_world) = Inr True"
  by code_simp

text \<open>
  C8, amended: in the restoration loop a rename back that fails is isolated and silent. In
  every world and for every list of renamed files the loop returns normally, it calls
  \<open>os.rename\<close> once for each pair of the list, in order, whatever the earlier calls did,
  and it prints nothing.
\<close>

theorem restore_isolates_and_stays_silent:
  "snd (restore renamed w) = Inr ()
   \<and> calls (fst (restore renamed w))
       = calls w @ map (\<lambda>(original_path, temp_name). Rename temp_name original_path) renamed
   \<and> stdout (fst (restore renamed w)) = stdout w"
  by (simp add: restore_never_raises restore_calls restore_stdout)

text \<open>
  C9. In full-page mode, let navigation, settle wait and scroll succeed, and let a step of
  \<open>fullpage_screenshot\<close> (height query, window size query, resize, settle, snapshot)
  raise an Exception, leaving the world \<open>w4\<close>. Then the capture is the viewport snapshot
  taken from \<open>w4\<close>: one \<open>save_screenshot\<close> call, the window size as it then is. The tick
  reports \<open>done.\<close> when that snapshot succeeds, and \<open>error: ...\<close> only when the
  snapshot raises as well.
\<close>

theorem fullpage_failure_falls_back:
  assumes "arg_fullpage a"
    and "driver_get d (arg_url a) w = (w1, Inr ())"
    and "sleep (arg_load_wait a) w1 = (w2, Inr ())"
    and "scroll_to_top d w2 = (w3, Inr ())"
    and "fullpage_screenshot d path w3 = (w4, Inl (Exception e))"
  shows "capture_once d (arg_url a) (arg_load_wait a) (arg_fullpage a) path w
           = viewport_screenshot d path w4
     \<and> calls (fst (viewport_screenshot d path w4)) = calls w4 @ [SaveScreenshot path]
     \<and> window (fst (viewport_screenshot d path w4)) = window w4
     \<and> (\<forall>w5. viewport_screenshot d path w4 = (w5, Inr ()) \<longrightarrow>
           capture_attempt a d path w = (w5\<lparr>stdout := stdout w5 @ [''done.'']\<rparr>, Inr ()))
     \<and> (\<forall>w5 e2. viewport_screenshot d path w4 = (w5, Inl (Exception e2)) \<longrightarrow>
           capture_attempt a d path w = (w5\<lparr>stdout := stdout w5 @ [''error: '' @ e2]\<rparr>, Inr ()))"
proof -
  have c: "capture_once d (arg_url a) (arg_load_wait a) (arg_fullpage a) path w
           = viewport_screenshot d path w4"
    using assms by (simp add: capture_once_def seq_apply except_Exception_def)
  have k: "calls (fst (viewport_screenshot d path w4)) = calls w4 @ [SaveScreenshot path]"
    using ext_call_calls [of "SaveScreenshot path" w4]
    by (cases "ext_call (SaveScreenshot path) w4")
       (auto simp: viewport_screenshot_def save_screenshot_def seq_apply modify_def split: sum.splits)
  have "keeps window (ext_call (SaveScreenshot path))"
    by (auto simp: keeps_def ext_call_def seq_apply interrupt_point_def take_reply_def Let_def
        split: option.splits nat.splits list.splits)
  then have "keeps window (viewport_screenshot d path)"
    unfolding viewport_screenshot_def save_screenshot_def
    by (intro keeps_intros keeps_modify) auto
  then have v: "window (fst (viewport_screenshot d path w4)) = window w4"
    by (rule keepsD)
  show ?thesis
    using c k v
    by (auto simp: capture_attempt_def except_Exception_def seq_apply py_print_def modify_def)
qed

lemma resize_1: "snd (driver_get Driver (arg_url demo_args) resize_fault_world) = Inr ()"
  by code_simp

lemma resize_2: "snd (sleep (arg_load_wait demo_args) resize_w1) = Inr ()"
  by code_simp

lemma resize_3: "snd (scroll_to_top Driver resize_w2) = Inr ()"
  by code_simp

lemma resize_4:
  "snd (fullpage_screenshot Driver ''out/f.png'' resize_w3) = Inl (Exception ''resize failed'')"
  by code_simp

lemma resize_5: "snd (viewport_screenshot Driver ''out/f.png'' resize_w4) = Inr ()"
  by code_simp

lemma resize_6: "arg_fullpage demo_args"
  by code_simp

theorem fullpage_failure_falls_back_witness:
  "arg_fullpage demo_args
   \<and> snd (driver_get Driver (arg_url demo_args) resize_fault_world) = Inr ()
   \<and> snd (sleep (arg_load_wait demo_args) resize_w1) = Inr ()
   \<and> snd (scroll_to_top Driver resize_w2) = Inr ()
   \<and> snd (fullpage_screenshot Driver ''out/f.png'' resize_w3) = Inl (Exception ''resize failed'')
   \<and> snd (viewport_screenshot Driver ''out/f.png'' resize_w4) = Inr ()
   \<and> snd (capture_attempt demo_args Driver ''out/f.png'' resize_fault_world) = Inr ()
   \<and> last (stdout (fst (capture_attempt demo_args Driver ''out/f.png'' resize_fault_world)))
       = ''done.''"
proof -
  have 1: "driver_get Driver (arg_url demo_args) resize_fault_world = (resize_w1, Inr ())"
    unfolding resize_w1_def by (rule pairI [OF resize_1])
  have 2: "sleep (arg_load_wait demo_args) resize_w1 = (resize_w2, Inr ())"
    unfolding resize_w2_def by (rule pairI [OF resize_2])
  have 3: "scroll_to_top Driver resize_w2 = (resize_w3, Inr ())"
    unfolding resize_w3_def by (rule pairI [OF resize_3])
  have 4: "fullpage_screenshot Driver ''out/f.png'' resize_w3
             = (resize_w4, Inl (Exception ''resize failed''))"
    unfolding resize_w4_def by (rule pairI [OF resize_4])
  have 5: "viewport_screenshot Driver ''out/f.png'' resize_w4
             = (fst (viewport_screenshot Driver ''out/f.png'' resize_w4), Inr ())"
    by (rule pairI [OF resize_5])
  from fullpage_failure_falls_back [OF resize_6 1 2 3 4] 5
  have "capture_attempt demo_args Driver ''out/f.png'' resize_fault_world
          = ((fst (viewport_screenshot Driver ''out/f.png'' resize_w4))
               \<lparr>stdout := stdout (fst (viewport_screenshot Driver ''out/f.png'' resize_w4))
                    @ [''done.'']\<rparr>, Inr ())"
    by blast
  then show ?thesis
    using resize_1 resize_2 resize_3 resize_4 resize_5 resize_6 by simp
qed

text \<open>
  C10. An explicit shot count is used as it is: \<open>count_shots\<close> returns \<open>args.shots\<close>
  unchanged, and only a count derived from a duration is raised to at least 1. With an
  explicit count \<open>n \<le> 0\<close> the loop runs no tick and returns normally, and in a world that
  answers every call \<open>main\<close> goes on to the video assembly: up to there it has called
  \<open>makedirs\<close>, started the browser, set its timeout and quit it, nothing else (no
  navigation, no snapshot), the files are as they were, and it has printed its five header
  lines and the line that reports the end of the captures.
\<close>

theorem nonpositive_shot_count_runs_no_tick:
  assumes "arg_shots a = Some n" and "n \<le> 0" and "benign w"
  shows "count_shots a w = (w, Inr n)
     \<and> (\<forall>b d. arg_shots b = None \<and> arg_duration b = Some d \<and> arg_interval b \<noteq> 0 \<longrightarrow>
           (\<exists>m. count_shots b w = (w, Inr m) \<and> 1 \<le> m))
     \<and> for_each [0..<nat n] (shot a n driver) w = (w, Inr ())
     \<and> (\<exists>w3. main a w
                = seq (maybe_build_video (arg_out a) (arg_fps a) (arg_video a) (arg_width a))
                      (ret ()) w3
              \<and> calls w3 = calls w @ [Makedirs (arg_out a), Chrome (arg_width a) (arg_height a),
                                       SetPageLoadTimeout 120, Quit]
              \<and> files w3 = files w
              \<and> length (stdout w3) = length (stdout w) + 6
              \<and> last (stdout w3) = CHR 0x0A # tick_mark @ '' Finished capturing '' @ str_int n
                                    @ '' screenshots in ~'' @ str_timedelta w 0)"
proof -
  have 1: "count_shots a w = (w, Inr n)" for w
    using assms(1) by (simp add: count_shots_def ret_def)
  have 2: "\<forall>b d. arg_shots b = None \<and> arg_duration b = Some d \<and> arg_interval b \<noteq> 0 \<longrightarrow>
           (\<exists>m. count_shots b w = (w, Inr m) \<and> 1 \<le> m)"
    by (auto simp: count_shots_def ret_def)
  have 3: "for_each [0..<nat n] (shot a n driver) w = (w, Inr ())"
    using assms(2) by (simp add: ret_def)
  define w0 where "w0 = answered (Makedirs (arg_out a)) w"
  have b0: "benign w0" using assms(3) by (simp add: w0_def)
  obtain wp where p: "preamble a w = (wp, Inr n)" and bp: "benign wp"
    and cp: "calls wp = calls w0" and fp: "files wp = files w0"
    and sp: "length (stdout wp) = length (stdout w) + 5"
    and tp: "str_timedelta wp = str_timedelta w"
    using b0
    by (simp add: preamble_def ensure_out_dir_def seq_apply ext_call_benign [OF assms(3)] ret_def
        bind_def 1 py_print_def modify_def w0_def answered_def)
  define w1 where "w1 = answered (Chrome (arg_width a) (arg_height a)) wp"
  define w2 where "w2 = answered (SetPageLoadTimeout 120) (w1\<lparr>window := (arg_width a, arg_height a)\<rparr>)"
  have b1: "benign w1" using bp by (simp add: w1_def)
  have b1': "benign (w1\<lparr>window := (arg_width a, arg_height a)\<rparr>)" using b1 by simp
  have b2: "benign w2" unfolding w2_def by (rule benign_answered [OF b1'])
  have nd: "new_driver (arg_width a) (arg_height a) wp = (w2, Inr Driver)"
    by (simp add: new_driver_def seq_apply ext_call_benign [OF bp] ext_call_benign [OF b1']
        modify_def ret_def w1_def [symmetric] w2_def [symmetric])
  define w2' where "w2' = w2\<lparr>stdout := stdout w2 @ [CHR 0x0A # tick_mark @ '' Finished capturing ''
                               @ str_int n @ '' screenshots in ~'' @ str_timedelta w2 0]\<rparr>"
  have b2': "benign w2'" using b2 by (simp add: w2'_def)
  define w3 where "w3 = answered Quit w2'"
  have ca: "capture_all a n Driver w2 = (w2', Inr ())"
    unfolding w2'_def by (rule capture_all_no_tick [OF assms(2)])
  have se: "session a n wp = (w3, Inr ())"
    by (simp add: session_def nd ca finally_quit_def driver_quit_def
        seq_apply ext_call_benign [OF b2'] ret_def w3_def [symmetric])
  have m: "main a w
                = seq (maybe_build_video (arg_out a) (arg_fps a) (arg_video a) (arg_width a))
                      (ret ()) w3"
    by (simp add: main_def bind_def p seq_apply se)
  have c: "calls w3 = calls w @ [Makedirs (arg_out a), Chrome (arg_width a) (arg_height a),
                                       SetPageLoadTimeout 120, Quit]"
    by (simp add: w3_def w2'_def w2_def w1_def cp w0_def)
  have f: "files w3 = files w"
    by (simp add: w3_def w2'_def w2_def w1_def fp w0_def)
  have s: "length (stdout w3) = length (stdout w) + 6"
    by (simp add: w3_def w2'_def w2_def w1_def sp)
  have t: "last (stdout w3) = CHR 0x0A # tick_mark @ '' Finished capturing '' @ str_int n
                                    @ '' screenshots in ~'' @ str_timedelta w 0"
    by (simp add: w3_def w2'_def w2_def w1_def tp answered_def)
  show ?thesis using 1 2 3 m c f s t by blast
qed

lemma no_shot_run:
  "snd (main no_shot_args demo_world) = Inr ()
   \<and> calls (fst (main no_shot_args demo_world))
       = [Makedirs ''out'', Chrome 1280 800, SetPageLoadTimeout 120, Quit]
   \<and> files (fst (main no_shot_args demo_world)) = []
   \<and> last (stdout (fst (main no_shot_args demo_world)))
       = ''[!] No screenshot files found to build video''"
  by code_simp

theorem nonpositive_shot_count_runs_no_tick_witness:
  "arg_shots no_shot_args = Some (- 2) \<and> (- 2 :: int) \<le> 0 \<and> benign demo_world
   \<and> count_shots no_shot_args demo_world = (demo_world, Inr (- 2))
   \<and> for_each [0..<nat (- 2)] (shot no_shot_args (- 2) Driver) demo_world = (demo_world, Inr ())
   \<and> snd (main no_shot_args demo_world) = Inr ()
   \<and> calls (fst (main no_shot_args demo_world))
       = [Makedirs ''out'', Chrome 1280 800, SetPageLoadTimeout 120, Quit]
   \<and> files (fst (main no_shot_args demo_world)) = []
   \<and> last (stdout (fst (main no_shot_args demo_world)))
       = ''[!] No screenshot files found to build video''"
  using nonpositive_shot_count_runs_no_tick [of no_shot_args "- 2" demo_world Driver] no_shot_run
  by (simp add: no_shot_args_def benign_def demo_world_def)

end
